theory Spec2Isabelle
  imports Complex_Main "HOL-Library.AList" "HOL-Library.FSet"
begin

section \<open>statsd-cloudwatch: the aggregation core of \<^verbatim>\<open>statsd_cloudwatch/main.py\<close>\<close>

text \<open>
  The program is Python 2 (\<^verbatim>\<open>setup.py\<close> classifies it so; \<^verbatim>\<open>Server.push\<close> deletes
  from the dictionary while walking \<^verbatim>\<open>self.metrics.items()\<close>, which is a list copy there).
  A datagram is a byte string, modelled as \<^typ>\<open>string\<close>.

  Python floats are modelled by rationals: the arithmetic is exact, so rounding, overflow,
  infinities and NaN are outside the model. Every numeral used in a concrete statement
  below is a small integer or a quotient of small integers.
\<close>

subsection \<open>Characters and text\<close>

definition isspace :: "char \<Rightarrow> bool" where
  \<comment> \<open>\<^verbatim>\<open>\s\<close> on a byte string, and the characters \<^verbatim>\<open>float()\<close> strips:
      space, tab, newline, vertical tab, form feed, carriage return.\<close>
  "isspace c = (c = CHR '' '' \<or> c = CHR 0x09 \<or> c = CHR 0x0A \<or> c = CHR 0x0B
                \<or> c = CHR 0x0C \<or> c = CHR 0x0D)"

definition isdigit :: "char \<Rightarrow> bool" where
  "isdigit c = (c \<in> set ''0123456789'')"

definition isalpha :: "char \<Rightarrow> bool" where
  "isalpha c = (c \<in> set ''abcdefghijklmnopqrstuvwxyzABCDEFGHIJKLMNOPQRSTUVWXYZ'')"

fun replace :: "char \<Rightarrow> char \<Rightarrow> string \<Rightarrow> string" where
  \<comment> \<open>\<^verbatim>\<open>s.replace(old, new)\<close> for one-character \<^verbatim>\<open>old\<close> and \<^verbatim>\<open>new\<close>.\<close>
  "replace old new [] = []"
| "replace old new (c # cs) = (if c = old then new else c) # replace old new cs"

function re_sub_ws :: "string \<Rightarrow> string" where
  \<comment> \<open>\<^verbatim>\<open>re.sub(r'\s+', '_', s)\<close>: every maximal run of whitespace becomes one underscore.\<close>
  "re_sub_ws [] = []"
| "re_sub_ws (c # cs) =
     (if isspace c then CHR ''_'' # re_sub_ws (dropWhile isspace cs)
      else c # re_sub_ws cs)"
  by pat_completeness auto
termination
  by (relation "measure length") (auto simp: le_imp_less_Suc length_dropWhile_le)

definition key_char :: "char \<Rightarrow> bool" where
  \<comment> \<open>the class \<^verbatim>\<open>[a-zA-Z_\-0-9\.]\<close>\<close>
  "key_char c = (isalpha c \<or> isdigit c \<or> c = CHR ''_'' \<or> c = CHR ''-'' \<or> c = CHR ''.'')"

definition re_sub_strip :: "string \<Rightarrow> string" where
  \<comment> \<open>\<^verbatim>\<open>re.sub(r'[^a-zA-Z_\-0-9\.]', '', s)\<close>\<close>
  "re_sub_strip s = filter key_char s"

definition clean_key :: "string \<Rightarrow> string" where
  \<comment> \<open>\<^verbatim>\<open>Server.clean_key\<close>\<close>
  "clean_key key =
     re_sub_strip (re_sub_ws (replace (CHR '' '') (CHR ''_'') (replace (CHR ''/'') (CHR ''-'') key)))"

definition clean_key_spec :: "string \<Rightarrow> string" where
  \<comment> \<open>The sanitizer in the words of the specification: slash and whitespace runs become
      an underscore, then every character outside the class is deleted.\<close>
  "clean_key_spec key = filter key_char (re_sub_ws (replace (CHR ''/'') (CHR ''_'') key))"

function squash_ctl :: "string \<Rightarrow> string" where
  \<comment> \<open>every maximal run of whitespace other than the space character becomes one underscore\<close>
  "squash_ctl [] = []"
| "squash_ctl (c # cs) =
     (if isspace c \<and> c \<noteq> CHR '' ''
      then CHR ''_'' # squash_ctl (dropWhile (\<lambda>d. isspace d \<and> d \<noteq> CHR '' '') cs)
      else c # squash_ctl cs)"
  by pat_completeness auto
termination
  by (relation "measure length") (auto simp: le_imp_less_Suc length_dropWhile_le)

definition slash_space :: "char \<Rightarrow> char" where
  "slash_space c = (if c = CHR ''/'' then CHR ''-'' else if c = CHR '' '' then CHR ''_'' else c)"

fun split :: "char \<Rightarrow> string \<Rightarrow> string list" where
  \<comment> \<open>\<^verbatim>\<open>s.split(sep)\<close> for a one-character separator: always at least one piece.\<close>
  "split sep [] = [[]]"
| "split sep (c # cs) =
     (if c = sep then [] # split sep cs
      else (case split sep cs of p # ps \<Rightarrow> (c # p) # ps | [] \<Rightarrow> [[c]]))"

definition rsplit1 :: "char \<Rightarrow> string \<Rightarrow> (string \<times> string) option" where
  \<comment> \<open>\<^verbatim>\<open>a, b = s.rsplit(sep, 1)\<close>: the split at the last separator; without a separator
      the list has one element and the unpacking raises \<^verbatim>\<open>ValueError\<close> (\<open>None\<close> here).\<close>
  "rsplit1 sep s =
     (if sep \<in> set s
      then Some (rev (tl (dropWhile (\<lambda>c. c \<noteq> sep) (rev s))), rev (takeWhile (\<lambda>c. c \<noteq> sep) (rev s)))
      else None)"

subsection \<open>Number parsing\<close>

definition strip :: "string \<Rightarrow> string" where
  "strip s = rev (dropWhile isspace (rev (dropWhile isspace s)))"

definition digit_val :: "char \<Rightarrow> nat" where
  \<comment> \<open>the position of a digit among the ten digits\<close>
  "digit_val c = length (takeWhile (\<lambda>d. d \<noteq> c) ''0123456789'')"

definition digits_val :: "string \<Rightarrow> nat" where
  "digits_val ds = foldl (\<lambda>n c. 10 * n + digit_val c) 0 ds"

definition unsign :: "string \<Rightarrow> bool \<times> string" where
  \<comment> \<open>an optional sign: whether it is a minus, and the rest\<close>
  "unsign s =
     (case s of
        c # cs \<Rightarrow> if c = CHR ''-'' then (True, cs) else if c = CHR ''+'' then (False, cs) else (False, s)
      | [] \<Rightarrow> (False, []))"

definition exponent :: "string \<Rightarrow> int option" where
  \<comment> \<open>the text after the mantissa: empty, or \<^verbatim>\<open>e\<close>/\<^verbatim>\<open>E\<close>, an optional sign and digits\<close>
  "exponent s =
     (case s of
        [] \<Rightarrow> Some 0
      | c # cs \<Rightarrow>
          if c = CHR ''e'' \<or> c = CHR ''E''
          then (let (neg, ds) = unsign cs in
                if ds \<noteq> [] \<and> list_all isdigit ds
                then Some (if neg then - int (digits_val ds) else int (digits_val ds))
                else None)
          else None)"

definition scale10 :: "int \<Rightarrow> rat" where
  "scale10 e = (if e < 0 then 1 / (10 ^ nat (- e)) else 10 ^ nat e)"

definition py_float :: "string \<Rightarrow> rat option" where
  \<comment> \<open>\<^verbatim>\<open>float(s)\<close> on a string: surrounding whitespace is stripped, then an optional sign,
      digits with an optional point and fraction (one of the two digit runs may be empty),
      and an optional exponent. \<open>None\<close> is \<^verbatim>\<open>ValueError\<close>. The spellings \<^verbatim>\<open>inf\<close>,
      \<^verbatim>\<open>infinity\<close> and \<^verbatim>\<open>nan\<close>, which Python also accepts, denote no rational and are
      not accepted here.\<close>
  "py_float s =
     (let (neg, body) = unsign (strip s);
          ip = takeWhile isdigit body;
          r1 = dropWhile isdigit body;
          fp = (case r1 of c # cs \<Rightarrow> if c = CHR ''.'' then takeWhile isdigit cs else [] | [] \<Rightarrow> []);
          r2 = (case r1 of c # cs \<Rightarrow> if c = CHR ''.'' then dropWhile isdigit cs else r1 | [] \<Rightarrow> [])
      in if ip = [] \<and> fp = [] then None
         else (case exponent r2 of
                 None \<Rightarrow> None
               | Some e \<Rightarrow>
                   let m = (of_nat (digits_val ip) + of_nat (digits_val fp) / 10 ^ length fp) * scale10 e
                   in Some (if neg then - m else m)))"

definition py_int :: "string \<Rightarrow> int option" where
  \<comment> \<open>\<^verbatim>\<open>int(s)\<close> on a string, base ten: stripped, an optional sign, digits.\<close>
  "py_int s =
     (let (neg, ds) = unsign (strip s)
      in if ds \<noteq> [] \<and> list_all isdigit ds
         then Some (if neg then - int (digits_val ds) else int (digits_val ds))
         else None)"

subsection \<open>Metrics\<close>

datatype klass = Counter | Gauge | Meter | Timer | Histogram | Set

datatype exn = ValueError | AttributeError | IndexError | KeyError | SinkError

text \<open>
  The object's class and its \<^verbatim>\<open>_value\<close> together: \<^verbatim>\<open>copy.copy(self.default)\<close> gives every
  instance its own number, list or (finite) set.
\<close>

datatype body =
    CounterV rat
  | GaugeV rat
  | MeterV int
  | TimerV "rat list"
  | HistogramV "rat list"
  | SetV "string fset"

fun class_of :: "body \<Rightarrow> klass" where
  "class_of (CounterV _) = Counter"
| "class_of (GaugeV _) = Gauge"
| "class_of (MeterV _) = Meter"
| "class_of (TimerV _) = Timer"
| "class_of (HistogramV _) = Histogram"
| "class_of (SetV _) = Set"

fun default_of :: "klass \<Rightarrow> body" where
  "default_of Counter = CounterV 0"
| "default_of Gauge = GaugeV 0"
| "default_of Meter = MeterV 0"
| "default_of Timer = TimerV []"
| "default_of Histogram = HistogramV []"
| "default_of Set = SetV {||}"

fun unit_of :: "klass \<Rightarrow> string" where
  "unit_of Counter = ''Count''"
| "unit_of Timer = ''Milliseconds''"
| "unit_of Histogram = ''Milliseconds''"
| "unit_of _ = ''None''"

fun isinstance :: "klass \<Rightarrow> klass \<Rightarrow> bool" where
  \<comment> \<open>\<^verbatim>\<open>isinstance(obj, k)\<close> for an object of class \<open>c\<close>: \<^verbatim>\<open>Histogram\<close> is the one subclass.\<close>
  "isinstance c k = (c = k \<or> (c = Histogram \<and> k = Timer))"

record metric =
  m_namespace :: string         \<comment> \<open>\<^verbatim>\<open>self._namespace\<close>\<close>
  m_name :: string              \<comment> \<open>\<^verbatim>\<open>self.name\<close>\<close>
  m_body :: body                \<comment> \<open>the class and \<^verbatim>\<open>self._value\<close>\<close>
  m_timestamp :: "nat option"   \<comment> \<open>\<^verbatim>\<open>self.timestamp\<close>, unset until the first update\<close>

definition Metric_init :: "klass \<Rightarrow> string \<Rightarrow> exn + metric" where
  \<comment> \<open>\<^verbatim>\<open>Metric.__init__\<close>: a name without a dot cannot be unpacked into two parts.\<close>
  "Metric_init k name =
     (case rsplit1 (CHR ''.'') name of
        None \<Rightarrow> Inl ValueError
      | Some (nsp, nm) \<Rightarrow>
          Inr \<lparr>m_namespace = replace (CHR ''.'') (CHR ''/'') nsp, m_name = nm,
               m_body = default_of k, m_timestamp = None\<rparr>)"

definition Metric_update :: "nat \<Rightarrow> metric \<Rightarrow> metric" where
  "Metric_update timestamp m = m\<lparr>m_timestamp := Some timestamp\<rparr>"

definition rate_char :: "char \<Rightarrow> bool" where
  "rate_char c = (isdigit c \<or> c = CHR ''.'')"

definition rate_match :: "string \<Rightarrow> string option" where
  \<comment> \<open>\<^verbatim>\<open>re.match('^@([\d\.]+)', a)\<close>: group 1 of the match, \<open>None\<close> without a match.\<close>
  "rate_match a =
     (case a of
        [] \<Rightarrow> None
      | c # cs \<Rightarrow>
          if c = CHR ''@'' \<and> takeWhile rate_char cs \<noteq> [] then Some (takeWhile rate_char cs)
          else None)"

definition float_or_1 :: "string \<Rightarrow> rat option" where
  \<comment> \<open>\<^verbatim>\<open>float(value or 1)\<close>\<close>
  "float_or_1 v = (if v = [] then Some 1 else py_float v)"

definition int_or_1 :: "string \<Rightarrow> int option" where
  \<comment> \<open>\<^verbatim>\<open>int(value or 1)\<close>\<close>
  "int_or_1 v = (if v = [] then Some 1 else py_int v)"

definition sample_rate :: "string list \<Rightarrow> exn + rat" where
  \<comment> \<open>the first lines of \<^verbatim>\<open>Counter.update\<close>: 1.0 unless there is exactly one argument\<close>
  "sample_rate args =
     (case args of
        [a] \<Rightarrow>
          (case rate_match a of
             None \<Rightarrow> Inl AttributeError
           | Some g \<Rightarrow> (case py_float g of None \<Rightarrow> Inl ValueError | Some r \<Rightarrow> Inr r))
      | _ \<Rightarrow> Inr 1)"

fun update :: "string \<Rightarrow> string list \<Rightarrow> nat \<Rightarrow> metric \<Rightarrow> metric \<times> exn option" where
  \<comment> \<open>\<^verbatim>\<open>obj.update(value, args, timestamp)\<close>, by the object's class. Each method first sets
      the timestamp; the object is returned as the call leaves it, with the exception
      raised, if any.\<close>
  "update v args ts m =
     (let m1 = Metric_update ts m in
      case m_body m of
        CounterV x \<Rightarrow>
          (case sample_rate args of
             Inl e \<Rightarrow> (m1, Some e)
           | Inr r \<Rightarrow>
               if r = 0 then (m1, None)
               else (case float_or_1 v of
                       None \<Rightarrow> (m1, Some ValueError)
                     | Some y \<Rightarrow> (m1\<lparr>m_body := CounterV (x + y * (1 / r))\<rparr>, None)))
      | GaugeV x \<Rightarrow>
          (if v \<noteq> [] \<and> hd v = CHR ''+'' then
             (case py_float (tl v) of
                None \<Rightarrow> (m1, Some ValueError)
              | Some y \<Rightarrow> (m1\<lparr>m_body := GaugeV (x + y)\<rparr>, None))
           else if v \<noteq> [] \<and> hd v = CHR ''-'' then
             (case py_float (tl v) of
                None \<Rightarrow> (m1, Some ValueError)
              | Some y \<Rightarrow> (m1\<lparr>m_body := GaugeV (x - y)\<rparr>, None))
           else
             (case py_float v of
                None \<Rightarrow> (m1, Some ValueError)
              | Some y \<Rightarrow> (m1\<lparr>m_body := GaugeV y\<rparr>, None)))
      | MeterV n \<Rightarrow>
          (case int_or_1 v of
             None \<Rightarrow> (m1, Some ValueError)
           | Some k \<Rightarrow> (m1\<lparr>m_body := MeterV (n + k)\<rparr>, None))
      | TimerV xs \<Rightarrow>
          (case py_float v of
             None \<Rightarrow> (m1, Some ValueError)
           | Some y \<Rightarrow> (m1\<lparr>m_body := TimerV (xs @ [y])\<rparr>, None))
      | HistogramV xs \<Rightarrow>
          (case py_float v of
             None \<Rightarrow> (m1, Some ValueError)
           | Some y \<Rightarrow> (m1\<lparr>m_body := HistogramV (xs @ [y])\<rparr>, None))
      | SetV S \<Rightarrow> (m1\<lparr>m_body := SetV (finsert v S)\<rparr>, None))"

record stats =
  s_minimum :: rat
  s_maximum :: rat
  s_sum :: rat
  s_samplecount :: nat

definition Timer_statistics :: "rat list \<Rightarrow> exn + stats" where
  \<comment> \<open>\<^verbatim>\<open>Timer.statistics\<close>: indexing the sorted list raises when it is empty.\<close>
  "Timer_statistics xs =
     (let v = sort xs in
      if v = [] then Inl IndexError
      else Inr \<lparr>s_minimum = hd v, s_maximum = last v, s_sum = foldl (+) 0 v, s_samplecount = length v\<rparr>)"

fun statistics :: "body \<Rightarrow> exn + stats option" where
  \<comment> \<open>\<^verbatim>\<open>self.statistics\<close>: the class attribute \<^verbatim>\<open>None\<close> except for timers\<close>
  "statistics (TimerV xs) = map_sum id Some (Timer_statistics xs)"
| "statistics (HistogramV xs) = map_sum id Some (Timer_statistics xs)"
| "statistics _ = Inr None"

fun value_of :: "body \<Rightarrow> rat option" where
  \<comment> \<open>\<^verbatim>\<open>self.value\<close>: the class attribute \<^verbatim>\<open>None\<close> for timers\<close>
  "value_of (CounterV x) = Some x"
| "value_of (GaugeV x) = Some x"
| "value_of (MeterV n) = Some (of_int n)"
| "value_of (SetV S) = Some (of_nat (fcard S))"
| "value_of _ = None"

definition falsy :: "rat option \<Rightarrow> bool" where
  \<comment> \<open>\<^verbatim>\<open>not v\<close> for \<^verbatim>\<open>None\<close> or a number\<close>
  "falsy v = (v = None \<or> v = Some 0)"

record put =
  p_namespace :: string
  p_name :: string
  p_timestamp :: nat
  p_unit :: string
  p_value :: "rat option"
  p_statistics :: "stats option"

type_synonym cloudwatch = "put \<Rightarrow> exn option"
  \<comment> \<open>the outcome of \<^verbatim>\<open>put_metric_data\<close>, the external sink: \<open>Some e\<close> when it raises\<close>

definition Metric_push :: "cloudwatch \<Rightarrow> string \<Rightarrow> metric \<Rightarrow> put list \<Rightarrow> put list \<times> exn option" where
  \<comment> \<open>\<^verbatim>\<open>Metric.push\<close>. The list holds the calls made to the sink so far. A timer's
      statistics are not \<^verbatim>\<open>None\<close>, so \<^verbatim>\<open>not self.statistics\<close> is false for it and
      \<^verbatim>\<open>self.value\<close> is not looked at.\<close>
  "Metric_push cw server_namespace m calls =
     (case statistics (m_body m) of
        Inl e \<Rightarrow> (calls, Some e)
      | Inr st \<Rightarrow>
          if st = None \<and> falsy (value_of (m_body m)) then (calls, None)
          else (case m_timestamp m of
                  None \<Rightarrow> (calls, Some AttributeError)
                | Some ts \<Rightarrow>
                    let p = \<lparr>p_namespace = server_namespace @ ''/'' @ m_namespace m,
                             p_name = m_name m, p_timestamp = ts,
                             p_unit = unit_of (class_of (m_body m)),
                             p_value = value_of (m_body m), p_statistics = st\<rparr>
                    in (calls @ [p], cw p)))"

subsection \<open>The server\<close>

datatype logrec =
    Skipping_malformed string
  | Unknown_type string
  | Previously_type klass klass
  | Unable_to_process exn
  | Error_storing exn
  | Pushing
  | Next_flush nat

text \<open>
  \<^verbatim>\<open>self.metrics\<close> is a dictionary: an association list with distinct keys, walked in
  the list's order. Python 2 fixes no order for a dictionary; the statements below hold
  for every list, so for every order. The calls made to the sink and the log records are
  kept as traces in the state.
\<close>

record server =
  namespace :: string
  metrics :: "(string \<times> metric) list"
  flush_due :: nat
  running :: bool
  calls :: "put list"
  logged :: "logrec list"

definition Server_init :: "nat \<Rightarrow> server" where
  \<comment> \<open>\<^verbatim>\<open>Server.__init__\<close> with the default namespace, at time \<open>now\<close>\<close>
  "Server_init now =
     \<lparr>namespace = ''Statsd'', metrics = [], flush_due = now, running = False,
      calls = [], logged = []\<rparr>"

definition metric_types :: "string \<Rightarrow> klass option" where
  \<comment> \<open>\<^verbatim>\<open>Server.metric_types\<close>; \<open>None\<close> is \<^verbatim>\<open>KeyError\<close>\<close>
  "metric_types t =
     (if t = ''c'' then Some Counter
      else if t = ''g'' then Some Gauge
      else if t = ''h'' then Some Timer
      else if t = ''m'' then Some Histogram
      else if t = ''ms'' then Some Timer
      else if t = ''s'' then Some Set
      else None)"

definition match_line :: "string \<Rightarrow> (string \<times> string \<times> string) option" where
  \<comment> \<open>\<^verbatim>\<open>re.match('\A([^:]+):([^|]+)\|(.+)', line)\<close>: the three groups. The first group is
      the longest run without a colon and must end at a colon, the second the longest run
      without a bar and must end at a bar, and the third the rest of the line up to a
      newline; none may be empty.\<close>
  "match_line line =
     (let g1 = takeWhile (\<lambda>c. c \<noteq> CHR '':'') line;
          r1 = dropWhile (\<lambda>c. c \<noteq> CHR '':'') line;
          g2 = takeWhile (\<lambda>c. c \<noteq> CHR ''|'') (tl r1);
          r2 = dropWhile (\<lambda>c. c \<noteq> CHR ''|'') (tl r1);
          g3 = takeWhile (\<lambda>c. c \<noteq> CHR 0x0A) (tl r2)
      in if g1 \<noteq> [] \<and> r1 \<noteq> [] \<and> g2 \<noteq> [] \<and> r2 \<noteq> [] \<and> g3 \<noteq> [] then Some (g1, g2, g3)
         else None)"

definition dispatch ::
  "string \<Rightarrow> metric \<Rightarrow> klass \<Rightarrow> string \<Rightarrow> string list \<Rightarrow> nat \<Rightarrow> server \<Rightarrow> server \<times> exn option" where
  \<comment> \<open>the end of the loop body in \<^verbatim>\<open>Server.process\<close>: the class check and the update of
      the object \<open>m\<close> found under the key\<close>
  "dispatch key m k v args timestamp s =
     (if \<not> isinstance (class_of (m_body m)) k
      then (s\<lparr>logged := logged s @ [Previously_type (class_of (m_body m)) k]\<rparr>, None)
      else (case update v args timestamp m of
              (m', r) \<Rightarrow> (s\<lparr>metrics := AList.update key m' (metrics s)\<rparr>, r)))"

definition process_line :: "nat \<Rightarrow> string \<Rightarrow> server \<Rightarrow> server \<times> exn option" where
  \<comment> \<open>one turn of the loop in \<^verbatim>\<open>Server.process\<close>; \<open>Some e\<close> when \<open>e\<close> leaves the loop\<close>
  "process_line timestamp line s =
     (case match_line line of
        None \<Rightarrow> (s\<lparr>logged := logged s @ [Skipping_malformed line]\<rparr>, None)
      | Some (g1, v, g3) \<Rightarrow>
          (case split (CHR ''|'') g3 of
             [] \<Rightarrow> (s, Some IndexError)
           | metric_type # args \<Rightarrow>
               (case metric_types metric_type of
                  None \<Rightarrow> (s\<lparr>logged := logged s @ [Unknown_type metric_type]\<rparr>, None)
                | Some k \<Rightarrow>
                    (case map_of (metrics s) (clean_key g1) of
                       None \<Rightarrow>
                         (case Metric_init k (clean_key g1) of
                            Inl e \<Rightarrow> (s, Some e)
                          | Inr m \<Rightarrow>
                              dispatch (clean_key g1) m k v args timestamp
                                (s\<lparr>metrics := AList.update (clean_key g1) m (metrics s)\<rparr>))
                     | Some m \<Rightarrow> dispatch (clean_key g1) m k v args timestamp s))))"

fun process_lines :: "nat \<Rightarrow> string list \<Rightarrow> server \<Rightarrow> server \<times> exn option" where
  "process_lines timestamp [] s = (s, None)"
| "process_lines timestamp (line # rest) s =
     (case process_line timestamp line s of
        (s', None) \<Rightarrow> process_lines timestamp rest s'
      | (s', Some e) \<Rightarrow> (s', Some e))"

definition process :: "nat \<Rightarrow> string \<Rightarrow> server \<Rightarrow> server \<times> exn option" where
  \<comment> \<open>\<^verbatim>\<open>Server.process(data)\<close>, with the value \<^verbatim>\<open>datetime.now()\<close> returns\<close>
  "process timestamp data s = process_lines timestamp (split (CHR 0x0A) data) s"

fun push_items :: "cloudwatch \<Rightarrow> (string \<times> metric) list \<Rightarrow> server \<Rightarrow> server \<times> exn option" where
  \<comment> \<open>the loop of \<^verbatim>\<open>Server.push\<close> over the items taken when it started\<close>
  "push_items cw [] s = (s, None)"
| "push_items cw ((name, m) # rest) s =
     (case Metric_push cw (namespace s) m (calls s) of
        (cs, Some e) \<Rightarrow> (s\<lparr>calls := cs\<rparr>, Some e)
      | (cs, None) \<Rightarrow>
          (case map_of (metrics s) name of
             None \<Rightarrow> (s\<lparr>calls := cs\<rparr>, Some KeyError)
           | Some _ \<Rightarrow>
               push_items cw rest (s\<lparr>calls := cs, metrics := AList.delete name (metrics s)\<rparr>)))"

definition push :: "cloudwatch \<Rightarrow> server \<Rightarrow> server \<times> exn option" where
  \<comment> \<open>\<^verbatim>\<open>Server.push\<close>\<close>
  "push cw s = push_items cw (metrics s) (s\<lparr>logged := logged s @ [Pushing]\<rparr>)"

record tick =
  datagram :: "string option"   \<comment> \<open>what \<^verbatim>\<open>select\<close> and \<^verbatim>\<open>recvfrom\<close> deliver, if anything\<close>
  t_process :: nat              \<comment> \<open>\<^verbatim>\<open>datetime.now()\<close> inside \<^verbatim>\<open>process\<close>\<close>
  t_check :: nat                \<comment> \<open>\<^verbatim>\<open>datetime.now()\<close> compared with \<^verbatim>\<open>flush_due\<close>\<close>
  t_next :: nat                 \<comment> \<open>\<^verbatim>\<open>datetime.now()\<close> after the flush\<close>

definition receive :: "tick \<Rightarrow> server \<Rightarrow> server" where
  \<comment> \<open>the first half of a turn of the loop in \<^verbatim>\<open>Server.serve\<close>\<close>
  "receive tk s =
     (case datagram tk of
        None \<Rightarrow> s
      | Some data \<Rightarrow>
          (case process (t_process tk) data s of
             (s', None) \<Rightarrow> s'
           | (s', Some e) \<Rightarrow> s'\<lparr>logged := logged s' @ [Unable_to_process e]\<rparr>))"

definition flush :: "cloudwatch \<Rightarrow> tick \<Rightarrow> server \<Rightarrow> server" where
  \<comment> \<open>the second half: the flush when it is due\<close>
  "flush cw tk s =
     (if t_check tk > flush_due s then
        (let s2 = (case push cw s of
                     (s', None) \<Rightarrow> s'
                   | (s', Some e) \<Rightarrow> s'\<lparr>logged := logged s' @ [Error_storing e]\<rparr>)
         in s2\<lparr>flush_due := t_next tk + 60,
                logged := logged s2 @ [Next_flush (t_next tk + 60)]\<rparr>)
      else s)"

definition serve_step :: "cloudwatch \<Rightarrow> tick \<Rightarrow> server \<Rightarrow> server" where
  "serve_step cw tk s = flush cw tk (receive tk s)"

fun serve_loop :: "cloudwatch \<Rightarrow> tick list \<Rightarrow> server \<Rightarrow> server" where
  \<comment> \<open>\<^verbatim>\<open>while self.running\<close>, along the events the socket and the clock supply\<close>
  "serve_loop cw [] s = s"
| "serve_loop cw (tk # tks) s =
     (if running s then serve_loop cw tks (serve_step cw tk s) else s)"

definition serve :: "cloudwatch \<Rightarrow> tick list \<Rightarrow> server \<Rightarrow> server" where
  "serve cw tks s = serve_loop cw tks (s\<lparr>running := True\<rparr>)"

subsection \<open>Notions used in the statements\<close>

definition accepting :: cloudwatch where
  \<comment> \<open>a sink that takes every record\<close>
  "accepting p = None"

definition refusing :: cloudwatch where
  \<comment> \<open>a sink that raises on every record\<close>
  "refusing p = Some SinkError"

definition reaches :: "server \<Rightarrow> string \<Rightarrow> klass \<Rightarrow> metric \<Rightarrow> bool" where
  \<comment> \<open>a line for \<open>key\<close> with class \<open>k\<close> gets as far as the update of the object \<open>m\<close>: the
      key is new and \<open>m\<close> is the object constructed for it, or \<open>m\<close> is registered under
      the key and passes the class check\<close>
  "reaches s key k m \<longleftrightarrow>
     (map_of (metrics s) key = None \<and> Metric_init k key = Inr m)
     \<or> (map_of (metrics s) key = Some m \<and> isinstance (class_of (m_body m)) k)"


definition counter_line :: "string \<Rightarrow> (string \<times> rat \<times> rat) option" where
  \<comment> \<open>a counter line of the wire format, \<^verbatim>\<open>bucket:value|c\<close> or \<^verbatim>\<open>bucket:value|c|@rate\<close>, whose
      value and rate are numbers: the key, the value and the rate (1 without modifier)\<close>
  "counter_line line =
     (case match_line line of
        None \<Rightarrow> None
      | Some (b, v, g3) \<Rightarrow>
          (case split (CHR ''|'') g3 of
             [t] \<Rightarrow>
               if t = ''c'' then map_option (\<lambda>x. (clean_key b, x, 1)) (py_float v) else None
           | [t, a] \<Rightarrow>
               if t = ''c'' then
                 (case rate_match a of
                    None \<Rightarrow> None
                  | Some g \<Rightarrow>
                      (case py_float g of
                         None \<Rightarrow> None
                       | Some r \<Rightarrow> map_option (\<lambda>x. (clean_key b, x, r)) (py_float v)))
               else None
           | _ \<Rightarrow> None))"

definition dotted_counter_line :: "string \<Rightarrow> bool" where
  \<comment> \<open>a counter line whose key contains a dot\<close>
  "dotted_counter_line line =
     (case counter_line line of None \<Rightarrow> False | Some (k, x, r) \<Rightarrow> CHR ''.'' \<in> set k)"

definition contribution :: "string \<Rightarrow> string \<Rightarrow> rat list" where
  \<comment> \<open>what a counter line adds to the counter of \<open>key\<close>: nothing for another key or rate 0\<close>
  "contribution key line =
     (case counter_line line of
        Some (k, x, r) \<Rightarrow> if k = key \<and> r \<noteq> 0 then [x * (1 / r)] else []
      | None \<Rightarrow> [])"

definition mentions :: "string \<Rightarrow> string \<Rightarrow> bool" where
  \<comment> \<open>the line is a counter line for \<open>key\<close>\<close>
  "mentions key line = (case counter_line line of Some (k, x, r) \<Rightarrow> k = key | None \<Rightarrow> False)"

definition counter_at :: "server \<Rightarrow> string \<Rightarrow> rat option" where
  \<comment> \<open>the accumulated value of the counter registered under \<open>key\<close>, if there is one\<close>
  "counter_at s key =
     (case map_of (metrics s) key of
        Some m \<Rightarrow> (case m_body m of CounterV x \<Rightarrow> Some x | _ \<Rightarrow> None)
      | None \<Rightarrow> None)"

definition attempt :: "cloudwatch \<Rightarrow> string \<Rightarrow> metric \<Rightarrow> put list \<times> exn option" where
  \<comment> \<open>the publish attempt for one object: the records it hands to the sink, and the
      exception it raises, if any\<close>
  "attempt cw server_namespace m = Metric_push cw server_namespace m []"

definition attempts :: "cloudwatch \<Rightarrow> string \<Rightarrow> (string \<times> metric) list \<Rightarrow> put list" where
  \<comment> \<open>the records the attempts for a list of items hand to the sink, in order\<close>
  "attempts cw server_namespace items =
     concat (map (\<lambda>(name, m). fst (attempt cw server_namespace m)) items)"

section \<open>Properties\<close>

subsection \<open>The key sanitizer\<close>

lemma replace_map: "replace a b xs = map (\<lambda>c. if c = a then b else c) xs"
  by (induction xs) simp_all

lemma dropWhile_no_space:
  "CHR '' '' \<notin> set cs \<Longrightarrow> dropWhile (\<lambda>d. isspace d \<and> d \<noteq> CHR '' '') cs = dropWhile isspace cs"
  by (rule dropWhile_cong) auto

lemma re_sub_ws_no_space: "CHR '' '' \<notin> set xs \<Longrightarrow> re_sub_ws xs = squash_ctl xs"
proof (induction xs rule: re_sub_ws.induct)
  case 1
  show ?case by simp
next
  case (2 c cs)
  have sub: "CHR '' '' \<notin> set (dropWhile isspace cs)"
    using "2.prems" set_dropWhileD by fastforce
  show ?case
  proof (cases "isspace c")
    case True
    with 2 sub show ?thesis by (auto simp: dropWhile_no_space)
  next
    case False
    with 2 show ?thesis by simp
  qed
qed

text \<open>
  C4, as the specification words it, fails: \<^verbatim>\<open>clean_key\<close> turns a slash into a hyphen, not
  into an underscore, so the key of the bucket \<^verbatim>\<open>a/b\<close> is \<^verbatim>\<open>a-b\<close> where the
  specification's sanitizer gives \<^verbatim>\<open>a_b\<close>.
\<close>

theorem clean_key_slash_counterexample:
  "clean_key ''a/b'' = ''a-b'' \<and> clean_key_spec ''a/b'' = ''a_b''
   \<and> clean_key ''a/b'' \<noteq> clean_key_spec ''a/b''"
  by code_simp

text \<open>
  C4 (amended): for every raw bucket string, the sanitized key is the result of replacing
  every slash with a hyphen and every space with an underscore (one for each space), then
  every run of the other whitespace characters with one underscore, then deleting every
  character outside \<^verbatim>\<open>[A-Za-z0-9_\-.]\<close>. Being a HOL function of its argument alone,
  the sanitizer is deterministic and pure.
\<close>

theorem clean_key_amended:
  "clean_key key = filter key_char (squash_ctl (map slash_space key))"
proof -
  have m: "replace (CHR '' '') (CHR ''_'') (replace (CHR ''/'') (CHR ''-'') key) = map slash_space key"
    by (simp add: replace_map slash_space_def)
  have "CHR '' '' \<notin> set (map slash_space key)"
    by (auto simp: slash_space_def)
  then show ?thesis
    by (simp add: clean_key_def re_sub_strip_def m re_sub_ws_no_space)
qed

theorem clean_key_amended_witness:
  "clean_key ''app/web  a\<newline>b!.x'' = ''app-web__a_b.x''"
  by (subst clean_key_amended) code_simp

subsection \<open>The loop over the lines of a datagram\<close>


lemma Metric_init_class: "Metric_init k key = Inr m \<Longrightarrow> class_of (m_body m) = k"
  by (cases k) (auto simp: Metric_init_def split: option.splits)

lemma Metric_init_body: "Metric_init k key = Inr m \<Longrightarrow> m_body m = default_of k"
  by (auto simp: Metric_init_def split: option.splits)

lemma Metric_init_timestamp: "Metric_init k key = Inr m \<Longrightarrow> m_timestamp m = None"
  by (auto simp: Metric_init_def split: option.splits)

lemma Metric_init_dot: "(\<exists>m. Metric_init k key = Inr m) \<longleftrightarrow> CHR ''.'' \<in> set key"
  by (auto simp: Metric_init_def rsplit1_def split: option.splits)

lemma process_line_update:
  assumes "match_line line = Some (b, v, g3)"
    and "split (CHR ''|'') g3 = t # args"
    and "metric_types t = Some k"
    and "reaches s (clean_key b) k m"
  shows "process_line ts line s =
           (s\<lparr>metrics := AList.update (clean_key b) (fst (update v args ts m)) (metrics s)\<rparr>,
            snd (update v args ts m))"
proof -
  note update.simps [simp del] isinstance.simps [simp del]
  from assms(4) consider
      (new) "map_of (metrics s) (clean_key b) = None" "Metric_init k (clean_key b) = Inr m"
    | (old) "map_of (metrics s) (clean_key b) = Some m" "isinstance (class_of (m_body m)) k"
    unfolding reaches_def by auto
  then show ?thesis
  proof cases
    case new
    have "isinstance (class_of (m_body m)) k"
      using Metric_init_class [OF new(2)] by (simp add: isinstance.simps)
    with new assms(1-3) show ?thesis
      by (simp add: process_line_def dispatch_def split: prod.splits)
  next
    case old
    with assms(1-3) show ?thesis
      by (simp add: process_line_def dispatch_def split: prod.splits)
  qed
qed

lemma process_line_rejected:
  assumes "match_line line = Some (b, v, g3)"
    and "split (CHR ''|'') g3 = t # args"
    and "metric_types t = Some k"
    and "map_of (metrics s) (clean_key b) = Some m"
    and "\<not> isinstance (class_of (m_body m)) k"
  shows "process_line ts line s =
           (s\<lparr>logged := logged s @ [Previously_type (class_of (m_body m)) k]\<rparr>, None)"
  using assms by (simp add: process_line_def dispatch_def del: isinstance.simps)


lemma update_class: "class_of (m_body (fst (update v args ts m))) = class_of (m_body m)"
  by (cases "m_body m")
     (auto simp: Metric_update_def Let_def split: sum.splits option.splits if_splits)

subsection \<open>The parser and the dispatch table\<close>

text \<open>
  C9 at the input \<^verbatim>\<open>foo.bar:|c\<close>: the claim has a counter line without a value accepted
  and counted as 1, as \<^verbatim>\<open>float(value or 1)\<close> in \<^verbatim>\<open>Counter.update\<close> provides for. The
  pattern of \<^verbatim>\<open>Server.process\<close> asks for a value of at least one character, so the line is
  skipped as malformed and no counter exists afterwards.
\<close>

theorem omitted_value_is_skipped:
  "process 1 ''foo.bar:|c'' (Server_init 0)
     = ((Server_init 0)\<lparr>logged := [Skipping_malformed ''foo.bar:|c'']\<rparr>, None)
   \<and> metrics (fst (process 1 ''foo.bar:|c'' (Server_init 0))) = []
   \<and> match_line ''foo.bar:|m'' = None"
  by code_simp

text \<open>
  C8 at the input \<^verbatim>\<open>foo.bar:3|m\<close>: the claim gives the type code \<^verbatim>\<open>m\<close> the semantics of
  the class \<^verbatim>\<open>Meter\<close> (a running integer count, published as a single value). The table
  \<^verbatim>\<open>metric_types\<close> sends \<^verbatim>\<open>m\<close> to \<^verbatim>\<open>Histogram\<close>, so the update appends a sample to
  a list and the flush publishes a statistics block without a value.
\<close>

theorem type_code_m_is_histogram:
  "metric_types ''m'' = Some Histogram
   \<and> map (\<lambda>(k, m). (k, m_body m)) (metrics (fst (process 1 ''foo.bar:3|m'' (Server_init 0))))
       = [(''foo.bar'', HistogramV [3])]
   \<and> calls (fst (push accepting (fst (process 1 ''foo.bar:3|m'' (Server_init 0)))))
       = [\<lparr>p_namespace = ''Statsd/foo'', p_name = ''bar'', p_timestamp = 1,
           p_unit = ''Milliseconds'', p_value = None,
           p_statistics = Some \<lparr>s_minimum = 3, s_maximum = 3, s_sum = 3, s_samplecount = 1\<rparr>\<rparr>]"
  by code_simp

subsection \<open>Exceptions raised by an update\<close>




















subsection \<open>One class for a key\<close>

lemma dispatch_class:
  assumes "map_of (metrics s) key = Some m"
    and "key' = key \<longrightarrow> n = m"
  shows "\<exists>m'. map_of (metrics (fst (dispatch key' n k v args ts s))) key = Some m'
           \<and> class_of (m_body m') = class_of (m_body m)"
proof -
  note update.simps [simp del] isinstance.simps [simp del]
  show ?thesis
    using assms update_class [of v args ts n]
    by (cases "update v args ts n")
       (auto simp: dispatch_def AList.update_conv')
qed

lemma process_line_class:
  assumes "map_of (metrics s) key = Some m"
  shows "\<exists>m'. map_of (metrics (fst (process_line ts line s))) key = Some m'
           \<and> class_of (m_body m') = class_of (m_body m)"
proof -
  note update.simps [simp del] isinstance.simps [simp del]
  show ?thesis
  proof (cases "match_line line")
    case None
    with assms show ?thesis by (simp add: process_line_def)
  next
    case (Some g)
    obtain b v g3 where g: "g = (b, v, g3)" by (cases g)
    show ?thesis
    proof (cases "split (CHR ''|'') g3")
      case Nil
      with Some g assms show ?thesis by (simp add: process_line_def)
    next
      case (Cons t args)
      show ?thesis
      proof (cases "metric_types t")
        case None
        with Some g Cons assms show ?thesis by (simp add: process_line_def)
      next
        case k: (Some k)
        show ?thesis
        proof (cases "map_of (metrics s) (clean_key b)")
          case None
          then have ne: "clean_key b \<noteq> key" using assms by auto
          show ?thesis
          proof (cases "Metric_init k (clean_key b)")
            case (Inl e)
            with Some g Cons k None assms show ?thesis by (simp add: process_line_def)
          next
            case (Inr n)
            have "map_of (metrics (s\<lparr>metrics := AList.update (clean_key b) n (metrics s)\<rparr>)) key = Some m"
              using assms ne by (simp add: AList.update_conv')
            from dispatch_class [OF this, of "clean_key b" n k v args ts] ne
            show ?thesis
              using Some g Cons k None Inr by (simp add: process_line_def)
          qed
        next
          case old: (Some n)
          have "clean_key b = key \<longrightarrow> n = m" using old assms by auto
          from dispatch_class [OF assms this, of k v args ts]
          show ?thesis
            using Some g Cons k old assms by (auto simp: process_line_def)
        qed
      qed
    qed
  qed
qed

lemma process_lines_class:
  assumes "map_of (metrics s) key = Some m"
  shows "\<exists>m'. map_of (metrics (fst (process_lines ts lines s))) key = Some m'
           \<and> class_of (m_body m') = class_of (m_body m)"
  using assms
proof (induction lines arbitrary: s m)
  case Nil
  then show ?case by simp
next
  case (Cons l ls)
  obtain s' r where pl: "process_line ts l s = (s', r)" by (cases "process_line ts l s")
  from process_line_class [OF Cons.prems, of ts l] pl
  obtain m' where m': "map_of (metrics s') key = Some m'" "class_of (m_body m') = class_of (m_body m)"
    by auto
  show ?case
  proof (cases r)
    case None
    with Cons.IH [OF m'(1)] m'(2) pl show ?thesis by simp
  next
    case (Some e)
    with m' pl show ?thesis by simp
  qed
qed

text \<open>
  C2, as stated, fails twice. Its example uses the key \<^verbatim>\<open>foo\<close>, which has no dot:
  \<^verbatim>\<open>Metric.__init__\<close> cannot unpack \<^verbatim>\<open>name.rsplit(".", 1)\<close>, so no counter is ever
  registered. And the class check is \<^verbatim>\<open>isinstance\<close>: a key bound to \<^verbatim>\<open>Histogram\<close> (code
  \<^verbatim>\<open>m\<close>) takes an update dispatched to \<^verbatim>\<open>Timer\<close> (code \<^verbatim>\<open>ms\<close>), a different entry
  of the table, and its sample list grows.
\<close>

theorem kind_binding_counterexample:
  "process 7 ''foo:1|c\<newline>foo:1|g'' (Server_init 0) = (Server_init 0, Some ValueError)
   \<and> map (\<lambda>(k, m). (k, m_body m)) (metrics (fst (process 7 ''app.lat:1|m'' (Server_init 0))))
       = [(''app.lat'', HistogramV [1])]
   \<and> metric_types ''ms'' = Some Timer
   \<and> Timer \<noteq> Histogram
   \<and> map (\<lambda>(k, m). (k, m_body m))
         (metrics (fst (process 7 ''app.lat:1|m\<newline>app.lat:2|ms'' (Server_init 0))))
       = [(''app.lat'', HistogramV [1, 2])]"
  by code_simp

text \<open>
  C2 (amended): in a generation the class bound to a key never changes, whatever lines are
  processed. An update whose dispatched class differs from the class bound to the key is
  rejected (logged, the registry untouched), except that a key bound to \<^verbatim>\<open>Histogram\<close>
  accepts an update dispatched to \<^verbatim>\<open>Timer\<close>, \<^verbatim>\<open>Histogram\<close> being a subclass; an update
  whose dispatched class is the bound class, or that exception, is handed to the object.
  After \<^verbatim>\<open>app.foo:1|c\<close> and \<^verbatim>\<open>app.foo:1|g\<close> the second update is rejected and the
  object is a counter of value 1.
\<close>

theorem kind_binding:
  assumes "map_of (metrics s) key = Some m"
  shows "(\<exists>m'. map_of (metrics (fst (process_lines ts lines s))) key = Some m'
             \<and> class_of (m_body m') = class_of (m_body m))
     \<and> (\<forall>line b v g3 t args k.
           match_line line = Some (b, v, g3) \<and> clean_key b = key
           \<and> split (CHR ''|'') g3 = t # args \<and> metric_types t = Some k
           \<and> class_of (m_body m) \<noteq> k \<and> \<not> (class_of (m_body m) = Histogram \<and> k = Timer)
           \<longrightarrow> process_line ts line s
                 = (s\<lparr>logged := logged s @ [Previously_type (class_of (m_body m)) k]\<rparr>, None))
     \<and> (\<forall>line b v g3 t args k.
           match_line line = Some (b, v, g3) \<and> clean_key b = key
           \<and> split (CHR ''|'') g3 = t # args \<and> metric_types t = Some k
           \<and> (class_of (m_body m) = k \<or> class_of (m_body m) = Histogram \<and> k = Timer)
           \<longrightarrow> process_line ts line s
                 = (s\<lparr>metrics := AList.update key (fst (update v args ts m)) (metrics s)\<rparr>,
                    snd (update v args ts m)))
     \<and> process 7 ''app.foo:1|c\<newline>app.foo:1|g'' (Server_init 0)
         = ((Server_init 0)
              \<lparr>metrics := [(''app.foo'', \<lparr>m_namespace = ''app'', m_name = ''foo'',
                                           m_body = CounterV 1, m_timestamp = Some 7\<rparr>)],
               logged := [Previously_type Counter Gauge]\<rparr>, None)"
proof -
  note update.simps [simp del]
  have a: "\<exists>m'. map_of (metrics (fst (process_lines ts lines s))) key = Some m'
             \<and> class_of (m_body m') = class_of (m_body m)"
    by (rule process_lines_class [OF assms])
  have b: "process_line ts line s
             = (s\<lparr>logged := logged s @ [Previously_type (class_of (m_body m)) k]\<rparr>, None)"
    if "match_line line = Some (b, v, g3)" "clean_key b = key"
      "split (CHR ''|'') g3 = t # args" "metric_types t = Some k"
      "class_of (m_body m) \<noteq> k" "\<not> (class_of (m_body m) = Histogram \<and> k = Timer)"
    for line b v g3 t args k
  proof -
    have "\<not> isinstance (class_of (m_body m)) k" using that(5,6) by simp
    moreover have "map_of (metrics s) (clean_key b) = Some m" using assms that(2) by simp
    ultimately show ?thesis
      by (rule process_line_rejected [OF that(1) that(3) that(4), rotated 1])
  qed
  have c: "process_line ts line s
             = (s\<lparr>metrics := AList.update key (fst (update v args ts m)) (metrics s)\<rparr>,
                snd (update v args ts m))"
    if "match_line line = Some (b, v, g3)" "clean_key b = key"
      "split (CHR ''|'') g3 = t # args" "metric_types t = Some k"
      "class_of (m_body m) = k \<or> class_of (m_body m) = Histogram \<and> k = Timer"
    for line b v g3 t args k
  proof -
    have "reaches s (clean_key b) k m"
      using assms that(2,5) by (auto simp: reaches_def)
    from process_line_update [OF that(1) that(3) that(4) this, of ts] that(2)
    show ?thesis by simp
  qed
  have d: "process 7 ''app.foo:1|c\<newline>app.foo:1|g'' (Server_init 0)
         = ((Server_init 0)
              \<lparr>metrics := [(''app.foo'', \<lparr>m_namespace = ''app'', m_name = ''foo'',
                                           m_body = CounterV 1, m_timestamp = Some 7\<rparr>)],
               logged := [Previously_type Counter Gauge]\<rparr>, None)"
    by code_simp
  from a b c d show ?thesis by blast
qed

theorem kind_binding_witness:
  "process_line 9 ''app.foo:1|g''
     ((Server_init 0)\<lparr>metrics := [(''app.foo'', \<lparr>m_namespace = ''app'', m_name = ''foo'',
                                           m_body = CounterV 1, m_timestamp = Some 7\<rparr>)]\<rparr>)
   = ((Server_init 0)\<lparr>metrics := [(''app.foo'', \<lparr>m_namespace = ''app'', m_name = ''foo'',
                                           m_body = CounterV 1, m_timestamp = Some 7\<rparr>)],
                       logged := [Previously_type Counter Gauge]\<rparr>, None)"
proof -
  let ?m = "\<lparr>m_namespace = ''app'', m_name = ''foo'', m_body = CounterV 1, m_timestamp = Some 7\<rparr>"
  let ?s = "(Server_init 0)\<lparr>metrics := [(''app.foo'', ?m)]\<rparr>"
  have h: "map_of (metrics ?s) ''app.foo'' = Some ?m" by simp
  have g: "match_line ''app.foo:1|g'' = Some (''app.foo'', ''1'', ''g'') \<and> clean_key ''app.foo'' = ''app.foo''
           \<and> split (CHR ''|'') ''g'' = ''g'' # [] \<and> metric_types ''g'' = Some Gauge
           \<and> class_of (m_body ?m) \<noteq> Gauge \<and> \<not> (class_of (m_body ?m) = Histogram \<and> Gauge = Timer)"
    by code_simp
  from kind_binding [OF h, of 9 "[]"] g
  have "process_line 9 ''app.foo:1|g'' ?s
          = (?s\<lparr>logged := logged ?s @ [Previously_type (class_of (m_body ?m)) Gauge]\<rparr>, None)"
    by blast
  then show ?thesis by (simp add: Server_init_def)
qed

subsection \<open>Gauges\<close>

text \<open>
  C5, as stated, fails on its example: the key \<^verbatim>\<open>foo\<close> has no dot, the constructor raises
  \<^verbatim>\<open>ValueError\<close> for each of the three lines, in one datagram or in three, and no gauge
  exists afterwards.
\<close>

theorem gauge_dotless_counterexample:
  "Metric_init Gauge (clean_key ''foo'') = Inl ValueError
   \<and> process 7 ''foo:5|g\<newline>foo:+3|g\<newline>foo:-2|g'' (Server_init 0) = (Server_init 0, Some ValueError)
   \<and> metrics (serve accepting
        [\<lparr>datagram = Some ''foo:5|g'', t_process = 1, t_check = 1, t_next = 1\<rparr>,
         \<lparr>datagram = Some ''foo:+3|g'', t_process = 2, t_check = 2, t_next = 2\<rparr>,
         \<lparr>datagram = Some ''foo:-2|g'', t_process = 3, t_check = 3, t_next = 3\<rparr>]
        (Server_init 10)) = []"
  by code_simp

text \<open>
  C5 (amended): for a bucket whose key contains a dot, a gauge line whose value starts with
  \<^verbatim>\<open>+\<close> adds the number after the sign to the stored value, one whose value starts with
  \<^verbatim>\<open>-\<close> subtracts it, and any other value replaces the stored value. Processing
  \<^verbatim>\<open>app.foo:5|g\<close>, \<^verbatim>\<open>app.foo:+3|g\<close>, \<^verbatim>\<open>app.foo:-2|g\<close> in one generation yields a
  gauge of value 6.
\<close>

theorem gauge_semantics:
  assumes "match_line line = Some (b, v, g3)"
    and "split (CHR ''|'') g3 = ''g'' # args"
    and "reaches s (clean_key b) Gauge m"
    and "m_body m = GaugeV x"
  shows "(\<forall>t y. v = CHR ''+'' # t \<and> py_float t = Some y \<longrightarrow>
            process_line ts line s
              = (s\<lparr>metrics := AList.update (clean_key b)
                     (m\<lparr>m_timestamp := Some ts, m_body := GaugeV (x + y)\<rparr>) (metrics s)\<rparr>, None))
     \<and> (\<forall>t y. v = CHR ''-'' # t \<and> py_float t = Some y \<longrightarrow>
            process_line ts line s
              = (s\<lparr>metrics := AList.update (clean_key b)
                     (m\<lparr>m_timestamp := Some ts, m_body := GaugeV (x - y)\<rparr>) (metrics s)\<rparr>, None))
     \<and> (\<forall>y. hd v \<noteq> CHR ''+'' \<and> hd v \<noteq> CHR ''-'' \<and> py_float v = Some y \<longrightarrow>
            process_line ts line s
              = (s\<lparr>metrics := AList.update (clean_key b)
                     (m\<lparr>m_timestamp := Some ts, m_body := GaugeV y\<rparr>) (metrics s)\<rparr>, None))
     \<and> process 7 ''app.foo:5|g\<newline>app.foo:+3|g\<newline>app.foo:-2|g'' (Server_init 0)
         = ((Server_init 0)
              \<lparr>metrics := [(''app.foo'', \<lparr>m_namespace = ''app'', m_name = ''foo'',
                                           m_body = GaugeV 6, m_timestamp = Some 7\<rparr>)]\<rparr>, None)"
proof -
  have mt: "metric_types ''g'' = Some Gauge"
    by (simp add: metric_types_def)
  note pl = process_line_update [OF assms(1,2) mt assms(3), of ts]
  have plus: "process_line ts line s
              = (s\<lparr>metrics := AList.update (clean_key b)
                     (m\<lparr>m_timestamp := Some ts, m_body := GaugeV (x + y)\<rparr>) (metrics s)\<rparr>, None)"
    if "v = CHR ''+'' # t" "py_float t = Some y" for t y
    using pl that assms(4) by (simp add: Metric_update_def)
  have minus: "process_line ts line s
              = (s\<lparr>metrics := AList.update (clean_key b)
                     (m\<lparr>m_timestamp := Some ts, m_body := GaugeV (x - y)\<rparr>) (metrics s)\<rparr>, None)"
    if "v = CHR ''-'' # t" "py_float t = Some y" for t y
    using pl that assms(4) by (simp add: Metric_update_def)
  have abs: "process_line ts line s
              = (s\<lparr>metrics := AList.update (clean_key b)
                     (m\<lparr>m_timestamp := Some ts, m_body := GaugeV y\<rparr>) (metrics s)\<rparr>, None)"
    if "hd v \<noteq> CHR ''+''" "hd v \<noteq> CHR ''-''" "py_float v = Some y" for y
    using pl that assms(4) by (simp add: Metric_update_def)
  have ex: "process 7 ''app.foo:5|g\<newline>app.foo:+3|g\<newline>app.foo:-2|g'' (Server_init 0)
         = ((Server_init 0)
              \<lparr>metrics := [(''app.foo'', \<lparr>m_namespace = ''app'', m_name = ''foo'',
                                           m_body = GaugeV 6, m_timestamp = Some 7\<rparr>)]\<rparr>, None)"
    by code_simp
  from plus minus abs ex show ?thesis by blast
qed

theorem gauge_semantics_witness:
  "process_line 8 ''app.foo:+3|g''
     ((Server_init 0)\<lparr>metrics := [(''app.foo'', \<lparr>m_namespace = ''app'', m_name = ''foo'',
                                           m_body = GaugeV 5, m_timestamp = Some 7\<rparr>)]\<rparr>)
   = ((Server_init 0)\<lparr>metrics := [(''app.foo'', \<lparr>m_namespace = ''app'', m_name = ''foo'',
                                           m_body = GaugeV 8, m_timestamp = Some 8\<rparr>)]\<rparr>, None)"
proof -
  let ?m = "\<lparr>m_namespace = ''app'', m_name = ''foo'', m_body = GaugeV 5, m_timestamp = Some 7\<rparr>"
  let ?s = "(Server_init 0)\<lparr>metrics := [(''app.foo'', ?m)]\<rparr>"
  have h1: "match_line ''app.foo:+3|g'' = Some (''app.foo'', ''+3'', ''g'')" by code_simp
  have h2: "split (CHR ''|'') ''g'' = ''g'' # []" by code_simp
  have h3: "reaches ?s (clean_key ''app.foo'') Gauge ?m" by code_simp
  have h4: "m_body ?m = GaugeV 5" by simp
  have p: "''+3'' = CHR ''+'' # ''3'' \<and> py_float ''3'' = Some 3" by code_simp
  have k: "clean_key ''app.foo'' = ''app.foo''" by code_simp
  from gauge_semantics [OF h1 h2 h3 h4, of 8] p
  have "process_line 8 ''app.foo:+3|g'' ?s
          = (?s\<lparr>metrics := AList.update (clean_key ''app.foo'')
                 (?m\<lparr>m_timestamp := Some 8, m_body := GaugeV (5 + 3)\<rparr>) (metrics ?s)\<rparr>, None)"
    by blast
  then show ?thesis by (simp add: k Server_init_def)
qed

subsection \<open>Publishing one object\<close>

lemma sum_list_insort: "sum_list (insort x xs) = x + sum_list (xs :: rat list)"
  by (induction xs) auto

lemma sum_list_sort: "sum_list (sort xs) = sum_list (xs :: rat list)"
  by (induction xs) (auto simp: sum_list_insort)

lemma foldl_plus_sum_list: "foldl (+) a xs = a + sum_list (xs :: rat list)"
  by (induction xs arbitrary: a) auto

lemma sorted_hd_Min: "sorted ys \<Longrightarrow> ys \<noteq> [] \<Longrightarrow> hd ys = Min (set (ys :: rat list))"
  by (cases ys) (auto intro!: Min_eqI [symmetric])

lemma sorted_last_Max: "sorted ys \<Longrightarrow> ys \<noteq> [] \<Longrightarrow> last ys = Max (set (ys :: rat list))"
proof (induction ys)
  case Nil
  then show ?case by simp
next
  case (Cons y ys)
  show ?case
  proof (cases "ys = []")
    case True
    then show ?thesis by simp
  next
    case False
    with Cons have "last ys = Max (set ys)" by simp
    moreover have "y \<le> Max (set ys)"
      using Cons.prems(1) False by (metis List.finite_set Max_ge hd_in_set list.sel(1) list.set_sel(1) order_trans sorted_simps(2))
    ultimately show ?thesis using False by (simp add: max_def)
  qed
qed

lemma sort_nonempty: "xs \<noteq> [] \<Longrightarrow> sort xs \<noteq> ([] :: rat list)"
  by (metis length_0_conv length_sort)

lemma hd_sort_Min: "xs \<noteq> [] \<Longrightarrow> hd (sort xs) = Min (set (xs :: rat list))"
  using sorted_hd_Min [of "sort xs"] by (simp add: sort_nonempty)

lemma last_sort_Max: "xs \<noteq> [] \<Longrightarrow> last (sort xs) = Max (set (xs :: rat list))"
  using sorted_last_Max [of "sort xs"] by (simp add: sort_nonempty)

lemma Timer_statistics_nonempty:
  "xs \<noteq> [] \<Longrightarrow> Timer_statistics xs =
     Inr \<lparr>s_minimum = Min (set xs), s_maximum = Max (set xs), s_sum = sum_list xs,
          s_samplecount = length xs\<rparr>"
  by (simp add: Timer_statistics_def Let_def hd_sort_Min last_sort_Max foldl_plus_sum_list
        sum_list_sort sort_nonempty)

text \<open>
  C7, as stated, fails: a counter and a gauge that did receive an update, with the value 0,
  are skipped, because \<^verbatim>\<open>Metric.push\<close> tests the truth of the value, not whether an update
  arrived; and a timer with no sample is not skipped, its statistics raise
  \<^verbatim>\<open>IndexError\<close>.
\<close>

theorem publish_counterexample:
  "map_of (metrics (fst (process 7 ''a.c:0|c\<newline>a.g:0|g'' (Server_init 0)))) ''a.c''
     = Some \<lparr>m_namespace = ''a'', m_name = ''c'', m_body = CounterV 0, m_timestamp = Some 7\<rparr>
   \<and> map_of (metrics (fst (process 7 ''a.c:0|c\<newline>a.g:0|g'' (Server_init 0)))) ''a.g''
     = Some \<lparr>m_namespace = ''a'', m_name = ''g'', m_body = GaugeV 0, m_timestamp = Some 7\<rparr>
   \<and> calls (fst (push accepting (fst (process 7 ''a.c:0|c\<newline>a.g:0|g'' (Server_init 0))))) = []
   \<and> Metric_push accepting ''Statsd''
        \<lparr>m_namespace = ''a'', m_name = ''t'', m_body = TimerV [], m_timestamp = Some 7\<rparr> []
       = ([], Some IndexError)"
  by code_simp

text \<open>
  C7 (amended): at publish time an object that has a timestamp and is a counter, gauge,
  meter or set is skipped (nothing is sent to the sink) exactly when its current value is
  0, which for a set means that it has no element, whether or not updates arrived; with
  any other value it is submitted as a single value without statistics. A timer or
  histogram with at least one sample is always submitted, with the minimum, maximum, sum
  and count of its samples and no value. (What a timer without samples does is left out.)
\<close>

theorem publish_rule:
  assumes "m_timestamp m = Some ts"
  shows "(class_of (m_body m) \<noteq> Timer \<and> class_of (m_body m) \<noteq> Histogram
          \<and> value_of (m_body m) = Some 0
          \<longrightarrow> Metric_push cw ns m cs = (cs, None))
     \<and> (class_of (m_body m) \<noteq> Timer \<and> class_of (m_body m) \<noteq> Histogram
          \<and> value_of (m_body m) \<noteq> Some 0
          \<longrightarrow> Metric_push cw ns m cs
                = (cs @ [\<lparr>p_namespace = ns @ ''/'' @ m_namespace m, p_name = m_name m,
                           p_timestamp = ts, p_unit = unit_of (class_of (m_body m)),
                           p_value = value_of (m_body m), p_statistics = None\<rparr>],
                   cw \<lparr>p_namespace = ns @ ''/'' @ m_namespace m, p_name = m_name m,
                       p_timestamp = ts, p_unit = unit_of (class_of (m_body m)),
                       p_value = value_of (m_body m), p_statistics = None\<rparr>))
     \<and> (\<forall>S. m_body m = SetV S \<longrightarrow> (value_of (m_body m) = Some 0 \<longleftrightarrow> S = {||}))
     \<and> (\<forall>xs. (m_body m = TimerV xs \<or> m_body m = HistogramV xs) \<and> xs \<noteq> []
          \<longrightarrow> Metric_push cw ns m cs
                = (cs @ [\<lparr>p_namespace = ns @ ''/'' @ m_namespace m, p_name = m_name m,
                           p_timestamp = ts, p_unit = ''Milliseconds'', p_value = None,
                           p_statistics = Some \<lparr>s_minimum = Min (set xs), s_maximum = Max (set xs),
                                                 s_sum = sum_list xs, s_samplecount = length xs\<rparr>\<rparr>],
                   cw \<lparr>p_namespace = ns @ ''/'' @ m_namespace m, p_name = m_name m,
                       p_timestamp = ts, p_unit = ''Milliseconds'', p_value = None,
                       p_statistics = Some \<lparr>s_minimum = Min (set xs), s_maximum = Max (set xs),
                                             s_sum = sum_list xs, s_samplecount = length xs\<rparr>\<rparr>))"
proof -
  have scalar: "statistics (m_body m) = Inr None"
    if "class_of (m_body m) \<noteq> Timer" "class_of (m_body m) \<noteq> Histogram"
    using that by (cases "m_body m") auto
  have skip: "Metric_push cw ns m cs = (cs, None)"
    if "class_of (m_body m) \<noteq> Timer" "class_of (m_body m) \<noteq> Histogram"
      "value_of (m_body m) = Some 0"
    using scalar [OF that(1,2)] that(3) by (simp add: Metric_push_def falsy_def)
  have some: "value_of (m_body m) \<noteq> None"
    if "class_of (m_body m) \<noteq> Timer" "class_of (m_body m) \<noteq> Histogram"
    using that by (cases "m_body m") auto
  have send: "Metric_push cw ns m cs
                = (cs @ [\<lparr>p_namespace = ns @ ''/'' @ m_namespace m, p_name = m_name m,
                           p_timestamp = ts, p_unit = unit_of (class_of (m_body m)),
                           p_value = value_of (m_body m), p_statistics = None\<rparr>],
                   cw \<lparr>p_namespace = ns @ ''/'' @ m_namespace m, p_name = m_name m,
                       p_timestamp = ts, p_unit = unit_of (class_of (m_body m)),
                       p_value = value_of (m_body m), p_statistics = None\<rparr>)"
    if "class_of (m_body m) \<noteq> Timer" "class_of (m_body m) \<noteq> Histogram"
      "value_of (m_body m) \<noteq> Some 0"
    using scalar [OF that(1,2)] some [OF that(1,2)] that(3) assms
    by (simp add: Metric_push_def falsy_def Let_def)
  have sets: "value_of (m_body m) = Some 0 \<longleftrightarrow> S = {||}" if "m_body m = SetV S" for S
    using that by (auto simp: fcard_0_eq)
  have timer: "Metric_push cw ns m cs
                = (cs @ [\<lparr>p_namespace = ns @ ''/'' @ m_namespace m, p_name = m_name m,
                           p_timestamp = ts, p_unit = ''Milliseconds'', p_value = None,
                           p_statistics = Some \<lparr>s_minimum = Min (set xs), s_maximum = Max (set xs),
                                                 s_sum = sum_list xs, s_samplecount = length xs\<rparr>\<rparr>],
                   cw \<lparr>p_namespace = ns @ ''/'' @ m_namespace m, p_name = m_name m,
                       p_timestamp = ts, p_unit = ''Milliseconds'', p_value = None,
                       p_statistics = Some \<lparr>s_minimum = Min (set xs), s_maximum = Max (set xs),
                                             s_sum = sum_list xs, s_samplecount = length xs\<rparr>\<rparr>)"
    if "m_body m = TimerV xs \<or> m_body m = HistogramV xs" "xs \<noteq> []" for xs
    using that assms
    by (auto simp: Metric_push_def Timer_statistics_nonempty Let_def)
  from skip send sets timer show ?thesis by blast
qed

theorem publish_rule_witness:
  "Metric_push accepting ''Statsd''
     \<lparr>m_namespace = ''z'', m_name = ''t'', m_body = TimerV [3, 1, 2], m_timestamp = Some 7\<rparr> []
   = ([\<lparr>p_namespace = ''Statsd/z'', p_name = ''t'', p_timestamp = 7, p_unit = ''Milliseconds'',
        p_value = None,
        p_statistics = Some \<lparr>s_minimum = 1, s_maximum = 3, s_sum = 6, s_samplecount = 3\<rparr>\<rparr>], None)"
proof -
  let ?m = "\<lparr>m_namespace = ''z'', m_name = ''t'', m_body = TimerV [3, 1, 2], m_timestamp = Some 7\<rparr>"
  have h: "m_timestamp ?m = Some 7" by simp
  have g: "(m_body ?m = TimerV [3, 1, 2] \<or> m_body ?m = HistogramV [3, 1, 2]) \<and> [3, 1, 2 :: rat] \<noteq> []"
    by simp
  from publish_rule [OF h, of accepting "''Statsd''" "[]"] g
  have "Metric_push accepting ''Statsd'' ?m []
          = ([] @ [\<lparr>p_namespace = ''Statsd'' @ ''/'' @ m_namespace ?m, p_name = m_name ?m,
                           p_timestamp = 7, p_unit = ''Milliseconds'', p_value = None,
                           p_statistics = Some \<lparr>s_minimum = Min (set [3, 1, 2]), s_maximum = Max (set [3, 1, 2]),
                                                 s_sum = sum_list [3, 1, 2], s_samplecount = length [3, 1, 2 :: rat]\<rparr>\<rparr>],
                   accepting \<lparr>p_namespace = ''Statsd'' @ ''/'' @ m_namespace ?m, p_name = m_name ?m,
                       p_timestamp = 7, p_unit = ''Milliseconds'', p_value = None,
                       p_statistics = Some \<lparr>s_minimum = Min (set [3, 1, 2]), s_maximum = Max (set [3, 1, 2]),
                                             s_sum = sum_list [3, 1, 2], s_samplecount = length [3, 1, 2 :: rat]\<rparr>\<rparr>)"
    by blast
  then show ?thesis by (simp add: accepting_def)
qed

subsection \<open>The flush\<close>

lemma distinct_process_line:
  "distinct (map fst (metrics s)) \<Longrightarrow> distinct (map fst (metrics (fst (process_line ts line s))))"
  by (auto simp: process_line_def dispatch_def AList.distinct_update
        simp del: update.simps isinstance.simps
        split: option.splits list.splits sum.splits prod.splits)

lemma distinct_process_lines:
  "distinct (map fst (metrics s)) \<Longrightarrow> distinct (map fst (metrics (fst (process_lines ts ls s))))"
proof (induction ls arbitrary: s)
  case Nil
  then show ?case by simp
next
  case (Cons l ls)
  from distinct_process_line [OF Cons.prems, of ts l]
  show ?case
    using Cons.IH [of "fst (process_line ts l s)"]
    by (cases "process_line ts l s") (auto split: option.splits)
qed

text \<open>
  C1, as stated, fails: when publishing an object raises, \<^verbatim>\<open>Server.push\<close> is left at once
  and the object stays registered with everything after it. A timer whose only sample did
  not parse raises \<^verbatim>\<open>IndexError\<close> at the flush and is still registered afterwards; with
  a sink that raises, a counter stays registered and is submitted again at the next flush.
\<close>

theorem flush_counterexample:
  "metrics (serve accepting
      [\<lparr>datagram = Some ''a.t:abc|ms'', t_process = 1, t_check = 1, t_next = 1\<rparr>] (Server_init 0))
     = [(''a.t'', \<lparr>m_namespace = ''a'', m_name = ''t'', m_body = TimerV [], m_timestamp = Some 1\<rparr>)]
   \<and> logged (serve accepting
      [\<lparr>datagram = Some ''a.t:abc|ms'', t_process = 1, t_check = 1, t_next = 1\<rparr>] (Server_init 0))
     = [Unable_to_process ValueError, Pushing, Error_storing IndexError, Next_flush 61]
   \<and> metrics (serve refusing
      [\<lparr>datagram = Some ''a.c:1|c'', t_process = 1, t_check = 1, t_next = 1\<rparr>,
       \<lparr>datagram = None, t_process = 70, t_check = 70, t_next = 70\<rparr>] (Server_init 0))
     = [(''a.c'', \<lparr>m_namespace = ''a'', m_name = ''c'', m_body = CounterV 1, m_timestamp = Some 1\<rparr>)]
   \<and> calls (serve refusing
      [\<lparr>datagram = Some ''a.c:1|c'', t_process = 1, t_check = 1, t_next = 1\<rparr>,
       \<lparr>datagram = None, t_process = 70, t_check = 70, t_next = 70\<rparr>] (Server_init 0))
     = [\<lparr>p_namespace = ''Statsd/a'', p_name = ''c'', p_timestamp = 1, p_unit = ''Count'',
         p_value = Some 1, p_statistics = None\<rparr>,
        \<lparr>p_namespace = ''Statsd/a'', p_name = ''c'', p_timestamp = 1, p_unit = ''Count'',
         p_value = Some 1, p_statistics = None\<rparr>]"
  by code_simp

lemma Metric_push_attempt:
  "Metric_push cw ns m cs = (cs @ fst (attempt cw ns m), snd (attempt cw ns m))"
  by (auto simp: attempt_def Metric_push_def Let_def split: sum.splits option.splits)

lemma push_items_all:
  assumes "distinct (map fst items)" and "metrics s = items"
    and "\<forall>(name, m) \<in> set items. snd (attempt cw (namespace s) m) = None"
  shows "push_items cw items s
           = (s\<lparr>metrics := [], calls := calls s @ attempts cw (namespace s) items\<rparr>, None)"
  using assms
proof (induction items arbitrary: s)
  case Nil
  then show ?case by (simp add: attempts_def)
next
  case (Cons item rest)
  obtain name m where item: "item = (name, m)" by (cases item)
  let ?cs = "calls s @ fst (attempt cw (namespace s) m)"
  let ?s2 = "s\<lparr>calls := ?cs, metrics := AList.delete name (metrics s)\<rparr>"
  have ok: "snd (attempt cw (namespace s) m) = None"
    using Cons.prems(3) item by simp
  have mp: "Metric_push cw (namespace s) m (calls s) = (?cs, None)"
    using Metric_push_attempt [of cw "namespace s" m "calls s"] ok by simp
  have look: "map_of (metrics s) name = Some m"
    using Cons.prems(2) item by simp
  have fresh: "name \<notin> fst ` set rest"
    using Cons.prems(1) item by simp
  have del: "AList.delete name (metrics s) = rest"
    using Cons.prems(2) item fresh by (simp add: AList.delete_id)
  have step: "push_items cw (item # rest) s = push_items cw rest ?s2"
    using item mp look by simp
  have d: "distinct (map fst rest)" using Cons.prems(1) by simp
  have m2: "metrics ?s2 = rest" using del by simp
  have a2: "\<forall>(name, m) \<in> set rest. snd (attempt cw (namespace ?s2) m) = None"
    using Cons.prems(3) by simp
  show ?case
    unfolding step Cons.IH [OF d m2 a2]
    using item by (simp add: attempts_def)
qed

lemma push_items_stop:
  assumes "distinct (map fst items)" and "metrics s = items"
    and "items = pre @ (name, m) # rest"
    and "\<forall>(n, k) \<in> set pre. snd (attempt cw (namespace s) k) = None"
    and "snd (attempt cw (namespace s) m) = Some e"
  shows "push_items cw items s
           = (s\<lparr>metrics := (name, m) # rest,
                calls := calls s @ attempts cw (namespace s) pre @ fst (attempt cw (namespace s) m)\<rparr>,
              Some e)"
  using assms
proof (induction pre arbitrary: s items)
  case Nil
  have mp: "Metric_push cw (namespace s) m (calls s)
              = (calls s @ fst (attempt cw (namespace s) m), Some e)"
    using Metric_push_attempt [of cw "namespace s" m "calls s"] Nil.prems(5) by simp
  show ?case
    using Nil.prems(2,3) mp by (simp add: attempts_def)
next
  case (Cons item pre)
  obtain n k where item: "item = (n, k)" by (cases item)
  let ?cs = "calls s @ fst (attempt cw (namespace s) k)"
  let ?s2 = "s\<lparr>calls := ?cs, metrics := AList.delete n (metrics s)\<rparr>"
  let ?tail = "pre @ (name, m) # rest"
  have ok: "snd (attempt cw (namespace s) k) = None"
    using Cons.prems(4) item by simp
  have mp: "Metric_push cw (namespace s) k (calls s) = (?cs, None)"
    using Metric_push_attempt [of cw "namespace s" k "calls s"] ok by simp
  have look: "map_of (metrics s) n = Some k"
    using Cons.prems(2,3) item by simp
  have fresh: "n \<notin> fst ` set ?tail"
    using Cons.prems(1,3) item by auto
  have del: "AList.delete n (metrics s) = ?tail"
    using Cons.prems(2,3) item fresh by (simp add: AList.delete_id)
  have step: "push_items cw items s = push_items cw ?tail ?s2"
    using Cons.prems(3) item mp look by simp
  have d: "distinct (map fst ?tail)" using Cons.prems(1,3) by simp
  have m2: "metrics ?s2 = ?tail" using del by simp
  have a2: "\<forall>(n, k) \<in> set pre. snd (attempt cw (namespace ?s2) k) = None"
    using Cons.prems(4) by simp
  have e2: "snd (attempt cw (namespace ?s2) m) = Some e"
    using Cons.prems(5) by simp
  show ?case
    unfolding step Cons.IH [OF d m2 refl a2 e2]
    using item by (simp add: attempts_def)
qed

text \<open>
  C1 (amended): a flush walks the registry in its order, makes the publish attempt for
  each object and deletes its key right after the attempt returns. When no attempt raises,
  the whole generation is discarded: the registry is empty afterwards, so the next flush
  publishes only what was registered since, and the sink has received what each attempt
  submits. When the attempt for an object raises, after attempts that did not, the flush
  stops there with that exception: the keys before the object are deleted, the object and
  all after it stay registered, and the sink has received only what the attempts up to
  that one submitted. The registry after the flush half of a turn of the serving loop is
  the one \<^verbatim>\<open>Server.push\<close> leaves when the flush is due, and unchanged when it is not.
  (Keys are distinct, as in a dictionary; processing a datagram keeps them so.)
\<close>

theorem flush_discards:
  assumes "distinct (map fst (metrics s))"
  shows "((\<forall>(name, m) \<in> set (metrics s). snd (attempt cw (namespace s) m) = None) \<longrightarrow>
            push cw s
              = (s\<lparr>metrics := [],
                   calls := calls s @ attempts cw (namespace s) (metrics s),
                   logged := logged s @ [Pushing]\<rparr>, None))
     \<and> (\<forall>pre name m rest e.
            metrics s = pre @ (name, m) # rest
            \<and> (\<forall>(n, k) \<in> set pre. snd (attempt cw (namespace s) k) = None)
            \<and> snd (attempt cw (namespace s) m) = Some e \<longrightarrow>
            push cw s
              = (s\<lparr>metrics := (name, m) # rest,
                   calls := calls s @ attempts cw (namespace s) pre @ fst (attempt cw (namespace s) m),
                   logged := logged s @ [Pushing]\<rparr>, Some e))
     \<and> metrics (flush cw tk s)
         = (if flush_due s < t_check tk then metrics (fst (push cw s)) else metrics s)
     \<and> distinct (map fst (metrics (fst (process ts data s))))"
proof -
  let ?s = "s\<lparr>logged := logged s @ [Pushing]\<rparr>"
  have d: "distinct (map fst (metrics s))" "metrics ?s = metrics s" "namespace ?s = namespace s"
    using assms by simp_all
  have a: "push cw s
              = (s\<lparr>metrics := [],
                   calls := calls s @ attempts cw (namespace s) (metrics s),
                   logged := logged s @ [Pushing]\<rparr>, None)"
    if "\<forall>(name, m) \<in> set (metrics s). snd (attempt cw (namespace s) m) = None"
    using push_items_all [OF d(1,2), of cw] that by (simp add: push_def)
  have b: "push cw s
              = (s\<lparr>metrics := (name, m) # rest,
                   calls := calls s @ attempts cw (namespace s) pre @ fst (attempt cw (namespace s) m),
                   logged := logged s @ [Pushing]\<rparr>, Some e)"
    if "metrics s = pre @ (name, m) # rest"
      "\<forall>(n, k) \<in> set pre. snd (attempt cw (namespace s) k) = None"
      "snd (attempt cw (namespace s) m) = Some e"
    for pre name m rest e
    using push_items_stop [OF d(1,2) that(1), of cw e] that(2,3) by (simp add: push_def)
  have c: "metrics (flush cw tk s)
         = (if flush_due s < t_check tk then metrics (fst (push cw s)) else metrics s)"
    by (cases "push cw s") (auto simp: flush_def Let_def split: option.splits)
  have e: "distinct (map fst (metrics (fst (process ts data s))))"
    using distinct_process_lines [OF assms] by (simp add: process_def)
  from a b c e show ?thesis by blast
qed

theorem flush_discards_witness:
  "push accepting
     ((Server_init 0)
        \<lparr>metrics := [(''a.c'', \<lparr>m_namespace = ''a'', m_name = ''c'', m_body = CounterV 1,
                                m_timestamp = Some 1\<rparr>),
                     (''a.g'', \<lparr>m_namespace = ''a'', m_name = ''g'', m_body = GaugeV 0,
                                m_timestamp = Some 2\<rparr>)]\<rparr>)
     = ((Server_init 0)
          \<lparr>calls := [\<lparr>p_namespace = ''Statsd/a'', p_name = ''c'', p_timestamp = 1,
                      p_unit = ''Count'', p_value = Some 1, p_statistics = None\<rparr>],
           logged := [Pushing]\<rparr>, None)
   \<and> push accepting
     ((Server_init 0)
        \<lparr>metrics := [(''a.d'', \<lparr>m_namespace = ''a'', m_name = ''d'', m_body = CounterV 2,
                                m_timestamp = Some 1\<rparr>),
                     (''a.t'', \<lparr>m_namespace = ''a'', m_name = ''t'', m_body = TimerV [],
                                m_timestamp = Some 2\<rparr>),
                     (''a.c'', \<lparr>m_namespace = ''a'', m_name = ''c'', m_body = CounterV 1,
                                m_timestamp = Some 3\<rparr>)]\<rparr>)
     = ((Server_init 0)
          \<lparr>metrics := [(''a.t'', \<lparr>m_namespace = ''a'', m_name = ''t'', m_body = TimerV [],
                                  m_timestamp = Some 2\<rparr>),
                       (''a.c'', \<lparr>m_namespace = ''a'', m_name = ''c'', m_body = CounterV 1,
                                  m_timestamp = Some 3\<rparr>)],
           calls := [\<lparr>p_namespace = ''Statsd/a'', p_name = ''d'', p_timestamp = 1,
                      p_unit = ''Count'', p_value = Some 2, p_statistics = None\<rparr>],
           logged := [Pushing]\<rparr>, Some IndexError)"
proof -
  let ?c = "\<lparr>m_namespace = ''a'', m_name = ''c'', m_body = CounterV 1, m_timestamp = Some 1\<rparr>"
  let ?g = "\<lparr>m_namespace = ''a'', m_name = ''g'', m_body = GaugeV 0, m_timestamp = Some 2\<rparr>"
  let ?d = "\<lparr>m_namespace = ''a'', m_name = ''d'', m_body = CounterV 2, m_timestamp = Some 1\<rparr>"
  let ?t = "\<lparr>m_namespace = ''a'', m_name = ''t'', m_body = TimerV [], m_timestamp = Some 2\<rparr>"
  let ?c3 = "\<lparr>m_namespace = ''a'', m_name = ''c'', m_body = CounterV 1, m_timestamp = Some 3\<rparr>"
  let ?A = "(Server_init 0)\<lparr>metrics := [(''a.c'', ?c), (''a.g'', ?g)]\<rparr>"
  let ?B = "(Server_init 0)\<lparr>metrics := [(''a.d'', ?d), (''a.t'', ?t), (''a.c'', ?c3)]\<rparr>"
  have dA: "distinct (map fst (metrics ?A))" by simp
  have dB: "distinct (map fst (metrics ?B))" by simp
  have okA: "\<forall>(name, m) \<in> set (metrics ?A). snd (attempt accepting (namespace ?A) m) = None"
    by code_simp
  have hB: "metrics ?B = [(''a.d'', ?d)] @ (''a.t'', ?t) # [(''a.c'', ?c3)]
            \<and> (\<forall>(n, k) \<in> set [(''a.d'', ?d)]. snd (attempt accepting (namespace ?B) k) = None)
            \<and> snd (attempt accepting (namespace ?B) ?t) = Some IndexError"
    by code_simp
  have eA: "(?A\<lparr>metrics := [],
                 calls := calls ?A @ attempts accepting (namespace ?A) (metrics ?A),
                 logged := logged ?A @ [Pushing]\<rparr>)
            = (Server_init 0)
                \<lparr>calls := [\<lparr>p_namespace = ''Statsd/a'', p_name = ''c'', p_timestamp = 1,
                      p_unit = ''Count'', p_value = Some 1, p_statistics = None\<rparr>],
                 logged := [Pushing]\<rparr>"
    by code_simp
  have eB: "(?B\<lparr>metrics := (''a.t'', ?t) # [(''a.c'', ?c3)],
                 calls := calls ?B @ attempts accepting (namespace ?B) [(''a.d'', ?d)]
                            @ fst (attempt accepting (namespace ?B) ?t),
                 logged := logged ?B @ [Pushing]\<rparr>)
            = (Server_init 0)
                \<lparr>metrics := [(''a.t'', ?t), (''a.c'', ?c3)],
                 calls := [\<lparr>p_namespace = ''Statsd/a'', p_name = ''d'', p_timestamp = 1,
                      p_unit = ''Count'', p_value = Some 2, p_statistics = None\<rparr>],
                 logged := [Pushing]\<rparr>"
    by code_simp
  have A: "push accepting ?A
             = (?A\<lparr>metrics := [],
                 calls := calls ?A @ attempts accepting (namespace ?A) (metrics ?A),
                 logged := logged ?A @ [Pushing]\<rparr>, None)"
    using flush_discards [OF dA, of accepting] okA by blast
  have B: "push accepting ?B
             = (?B\<lparr>metrics := (''a.t'', ?t) # [(''a.c'', ?c3)],
                 calls := calls ?B @ attempts accepting (namespace ?B) [(''a.d'', ?d)]
                            @ fst (attempt accepting (namespace ?B) ?t),
                 logged := logged ?B @ [Pushing]\<rparr>, Some IndexError)"
    using flush_discards [OF dB, of accepting] hB by blast
  show ?thesis
    unfolding A B eA eB by simp
qed

subsection \<open>Counters\<close>

lemma py_float_Nil: "py_float [] = None"
  by code_simp

lemma counter_lineD:
  assumes "counter_line line = Some (k, x, r)"
  obtains b v g3 args where
    "match_line line = Some (b, v, g3)" "k = clean_key b"
    "split (CHR ''|'') g3 = ''c'' # args" "py_float v = Some x" "sample_rate args = Inr r"
proof -
  from assms obtain b v g3 where m: "match_line line = Some (b, v, g3)"
    by (auto simp: counter_line_def split: option.splits)
  from assms m obtain args where
    "split (CHR ''|'') g3 = ''c'' # args" "py_float v = Some x" "sample_rate args = Inr r"
    "k = clean_key b"
    by (auto simp: counter_line_def sample_rate_def split: list.splits if_splits option.splits)
  with m that show thesis by blast
qed

lemma counter_update_value:
  assumes "m_body m = CounterV y" "sample_rate args = Inr r" "py_float v = Some x"
  shows "update v args ts m =
           (m\<lparr>m_timestamp := Some ts, m_body := CounterV (if r = 0 then y else y + x * (1 / r))\<rparr>,
            None)"
proof -
  have "v \<noteq> []" using assms(3) py_float_Nil by auto
  then have "float_or_1 v = Some x" using assms(3) by (simp add: float_or_1_def)
  with assms show ?thesis
    by (auto simp: Metric_update_def Let_def metric.equality)
qed

lemma counter_at_cong: "map_of (metrics s') key = map_of (metrics s) key \<Longrightarrow> counter_at s' key = counter_at s key"
  by (simp add: counter_at_def)

lemma process_counter_line:
  assumes "counter_line line = Some (k, x, r)" and "CHR ''.'' \<in> set k"
  shows "snd (process_line ts line s) = None
       \<and> (\<forall>key. key \<noteq> k \<longrightarrow>
             map_of (metrics (fst (process_line ts line s))) key = map_of (metrics s) key)
       \<and> (\<forall>m. map_of (metrics s) k = Some m \<and> class_of (m_body m) \<noteq> Counter \<longrightarrow>
             map_of (metrics (fst (process_line ts line s))) k = Some m)
       \<and> (map_of (metrics s) k = None \<or> counter_at s k \<noteq> None \<longrightarrow>
             counter_at (fst (process_line ts line s)) k =
               Some (if r = 0 then (case counter_at s k of Some y \<Rightarrow> y | None \<Rightarrow> 0)
                     else (case counter_at s k of Some y \<Rightarrow> y | None \<Rightarrow> 0) + x * (1 / r)))"
proof -
  note update.simps [simp del]
  from assms(1) obtain b v g3 args where
    l: "match_line line = Some (b, v, g3)" "k = clean_key b"
       "split (CHR ''|'') g3 = ''c'' # args" "py_float v = Some x" "sample_rate args = Inr r"
    by (rule counter_lineD)
  have mt: "metric_types ''c'' = Some Counter" by (simp add: metric_types_def)
  show ?thesis
  proof (cases "\<exists>m. map_of (metrics s) k = Some m \<and> class_of (m_body m) \<noteq> Counter")
    case True
    then obtain n where n: "map_of (metrics s) k = Some n" "class_of (m_body n) \<noteq> Counter"
      by blast
    then have ni: "\<not> isinstance (class_of (m_body n)) Counter" by simp
    have "process_line ts line s
            = (s\<lparr>logged := logged s @ [Previously_type (class_of (m_body n)) Counter]\<rparr>, None)"
      using process_line_rejected [OF l(1) l(3) mt _ ni, of s ts] n(1) l(2) by simp
    moreover have "counter_at s k = None"
      using n by (cases "m_body n") (auto simp: counter_at_def)
    ultimately show ?thesis using n by simp
  next
    case False
    obtain m y where m: "reaches s k Counter m" "m_body m = CounterV y"
      "counter_at s k = (if map_of (metrics s) k = None then None else Some y)"
      "map_of (metrics s) k = None \<longrightarrow> y = 0"
    proof (cases "map_of (metrics s) k")
      case None
      from assms(2) obtain n where n: "Metric_init Counter k = Inr n"
        using Metric_init_dot [of Counter k] by blast
      have "m_body n = CounterV 0" using Metric_init_body [OF n] by simp
      with None n that [of n 0] show thesis
        by (simp add: reaches_def counter_at_def)
    next
      case (Some n)
      with False have "class_of (m_body n) = Counter" by simp
      then obtain y where y: "m_body n = CounterV y" by (cases "m_body n") auto
      with Some that [of n y] show thesis
        by (simp add: reaches_def counter_at_def)
    qed
    let ?m' = "m\<lparr>m_timestamp := Some ts, m_body := CounterV (if r = 0 then y else y + x * (1 / r))\<rparr>"
    have u: "update v args ts m = (?m', None)"
      by (rule counter_update_value [OF m(2) l(5) l(4)])
    have pl: "process_line ts line s = (s\<lparr>metrics := AList.update k ?m' (metrics s)\<rparr>, None)"
      using process_line_update [OF l(1) l(3) mt, of s m ts] m(1) l(2) u by simp
    show ?thesis
      unfolding pl using m(3,4) False
      by (auto simp: counter_at_def AList.update_conv')
  qed
qed

lemma process_counter_lines:
  assumes "list_all dotted_counter_line lines"
  shows "snd (process_lines ts lines s) = None
       \<and> (\<forall>key m. map_of (metrics s) key = Some m \<and> class_of (m_body m) \<noteq> Counter \<longrightarrow>
             map_of (metrics (fst (process_lines ts lines s))) key = Some m)
       \<and> (\<forall>key. map_of (metrics s) key = None \<or> counter_at s key \<noteq> None \<longrightarrow>
             counter_at (fst (process_lines ts lines s)) key =
               (if counter_at s key = None \<and> \<not> list_ex (mentions key) lines then None
                else Some (foldl (+) (case counter_at s key of Some y \<Rightarrow> y | None \<Rightarrow> 0)
                             (concat (map (contribution key) lines)))))"
  using assms
proof (induction lines arbitrary: s)
  case Nil
  show ?case by (auto split: option.splits)
next
  case (Cons line rest)
  from Cons.prems obtain k x r where cl: "counter_line line = Some (k, x, r)"
    and dot: "CHR ''.'' \<in> set k"
    by (auto simp: dotted_counter_line_def split: option.splits)
  obtain s' where s': "s' = fst (process_line ts line s)" by simp
  from process_counter_line [OF cl dot, of ts s] s'
  have st: "process_line ts line s = (s', None)"
    and other: "\<And>key. key \<noteq> k \<Longrightarrow> map_of (metrics s') key = map_of (metrics s) key"
    and keep: "\<And>m. map_of (metrics s) k = Some m \<Longrightarrow> class_of (m_body m) \<noteq> Counter
                 \<Longrightarrow> map_of (metrics s') k = Some m"
    and add: "map_of (metrics s) k = None \<or> counter_at s k \<noteq> None \<Longrightarrow>
             counter_at s' k =
               Some (if r = 0 then (case counter_at s k of Some y \<Rightarrow> y | None \<Rightarrow> 0)
                     else (case counter_at s k of Some y \<Rightarrow> y | None \<Rightarrow> 0) + x * (1 / r))"
    by (auto simp: prod_eq_iff)
  from Cons.prems have rest: "list_all dotted_counter_line rest" by simp
  note ih = Cons.IH [OF rest, of s']
  have step: "process_lines ts (line # rest) s = process_lines ts rest s'"
    using st by simp
  have mk: "mentions key line = (key = k)" for key
    using cl by (auto simp: mentions_def)
  have ck: "contribution key line = (if key = k \<and> r \<noteq> 0 then [x * (1 / r)] else [])" for key
    using cl by (auto simp: contribution_def)
  show ?case
  proof (intro conjI allI impI)
    show "snd (process_lines ts (line # rest) s) = None"
      using ih step by simp
  next
    fix key m
    assume a: "map_of (metrics s) key = Some m \<and> class_of (m_body m) \<noteq> Counter"
    have "map_of (metrics s') key = Some m"
      using a other [of key] keep [of m] by (cases "key = k") auto
    with a ih show "map_of (metrics (fst (process_lines ts (line # rest) s))) key = Some m"
      unfolding step by blast
  next
    fix key
    assume a: "map_of (metrics s) key = None \<or> counter_at s key \<noteq> None"
    show "counter_at (fst (process_lines ts (line # rest) s)) key =
             (if counter_at s key = None \<and> \<not> list_ex (mentions key) (line # rest) then None
              else Some (foldl (+) (case counter_at s key of Some y \<Rightarrow> y | None \<Rightarrow> 0)
                           (concat (map (contribution key) (line # rest)))))"
    proof (cases "key = k")
      case True
      have at: "counter_at s' key =
               Some (if r = 0 then (case counter_at s k of Some y \<Rightarrow> y | None \<Rightarrow> 0)
                     else (case counter_at s k of Some y \<Rightarrow> y | None \<Rightarrow> 0) + x * (1 / r))"
        using add a True by simp
      then have a': "map_of (metrics s') key = None \<or> counter_at s' key \<noteq> None" by simp
      from ih a' have ihk: "counter_at (fst (process_lines ts rest s')) key =
             (if counter_at s' key = None \<and> \<not> list_ex (mentions key) rest then None
              else Some (foldl (+) (case counter_at s' key of Some y \<Rightarrow> y | None \<Rightarrow> 0)
                           (concat (map (contribution key) rest))))"
        by blast
      show ?thesis
        unfolding step ihk at
        using True mk [of key] ck [of key] by (simp split: option.splits)
    next
      case False
      have same: "map_of (metrics s') key = map_of (metrics s) key"
        using other [OF False] .
      have at: "counter_at s' key = counter_at s key"
        by (rule counter_at_cong [OF same])
      have a': "map_of (metrics s') key = None \<or> counter_at s' key \<noteq> None"
        using a same at by simp
      from ih a' have ihk: "counter_at (fst (process_lines ts rest s')) key =
             (if counter_at s' key = None \<and> \<not> list_ex (mentions key) rest then None
              else Some (foldl (+) (case counter_at s' key of Some y \<Rightarrow> y | None \<Rightarrow> 0)
                           (concat (map (contribution key) rest))))"
        by blast
      show ?thesis
        unfolding step ihk at
        using False mk [of key] ck [of key] by simp
    qed
  qed
qed

text \<open>
  C6, as stated, fails for a key without a dot: for the counter lines \<^verbatim>\<open>foo:1|c|@0\<close> and
  \<^verbatim>\<open>foo:1|c|@0.1\<close> the constructor raises \<^verbatim>\<open>ValueError\<close>, so the update with rate 0 is
  an error, not a no-op, and no counter accumulates anything.
\<close>

theorem counter_dotless_counterexample:
  "counter_line ''foo:1|c|@0'' = Some (''foo'', 1, 0)
   \<and> process 7 ''foo:1|c|@0'' (Server_init 0) = (Server_init 0, Some ValueError)
   \<and> counter_line ''foo:1|c|@0.1'' = Some (''foo'', 1, 1 / 10)
   \<and> process 7 ''foo:1|c|@0.1'' (Server_init 0) = (Server_init 0, Some ValueError)
   \<and> counter_at (fst (process 7 ''foo:1|c|@0.1'' (Server_init 0))) ''foo'' = None"
  by code_simp

text \<open>
  C6 (amended): in any generation, processing any sequence of counter lines whose keys
  contain a dot raises nothing. Afterwards, for every key that was unbound or bound to a
  counter, the counter holds what it held before (0 for a new key) plus, added one after
  the other in the order of the lines, \<open>value * (1 / rate)\<close> for each line of that key
  whose rate is not 0, the rate being 1 for a line without modifier; a line whose rate
  parses to 0 adds nothing and is no error (it still registers the counter). An object of
  another class bound to a key is left as it was: counter lines for it are rejected. The
  default of \<^verbatim>\<open>float(value or 1)\<close>: an update with an empty value and no modifier adds 1.
\<close>

theorem counter_sum:
  assumes "list_all dotted_counter_line lines"
  shows "snd (process_lines ts lines s) = None
     \<and> (\<forall>key. map_of (metrics s) key = None \<or> counter_at s key \<noteq> None \<longrightarrow>
           counter_at (fst (process_lines ts lines s)) key =
             (if counter_at s key = None \<and> \<not> list_ex (mentions key) lines then None
              else Some (foldl (+) (case counter_at s key of Some y \<Rightarrow> y | None \<Rightarrow> 0)
                           (concat (map (contribution key) lines)))))
     \<and> (\<forall>key m. map_of (metrics s) key = Some m \<and> class_of (m_body m) \<noteq> Counter \<longrightarrow>
           map_of (metrics (fst (process_lines ts lines s))) key = Some m)
     \<and> (\<forall>m y. m_body m = CounterV y \<longrightarrow>
           update [] [] ts m = (m\<lparr>m_timestamp := Some ts, m_body := CounterV (y + 1)\<rparr>, None))"
proof -
  have d: "update [] [] ts m = (m\<lparr>m_timestamp := Some ts, m_body := CounterV (y + 1)\<rparr>, None)"
    if "m_body m = CounterV y" for m y
    using that by (simp add: sample_rate_def float_or_1_def Metric_update_def)
  from process_counter_lines [OF assms, of ts s] d show ?thesis by blast
qed

theorem counter_sum_witness:
  "counter_at (fst (process_lines 7 [''a.b:1|c|@0.1'', ''a.b:2|c|@0'', ''x.g:4|c'', ''a.b:3|c'']
      ((Server_init 0)\<lparr>metrics := [(''x.g'', \<lparr>m_namespace = ''x'', m_name = ''g'',
                                              m_body = GaugeV 5, m_timestamp = Some 1\<rparr>)]\<rparr>)))
     ''a.b'' = Some 13
   \<and> map_of (metrics (fst (process_lines 7 [''a.b:1|c|@0.1'', ''a.b:2|c|@0'', ''x.g:4|c'', ''a.b:3|c'']
      ((Server_init 0)\<lparr>metrics := [(''x.g'', \<lparr>m_namespace = ''x'', m_name = ''g'',
                                              m_body = GaugeV 5, m_timestamp = Some 1\<rparr>)]\<rparr>))))
     ''x.g'' = Some \<lparr>m_namespace = ''x'', m_name = ''g'', m_body = GaugeV 5, m_timestamp = Some 1\<rparr>"
proof -
  let ?ls = "[''a.b:1|c|@0.1'', ''a.b:2|c|@0'', ''x.g:4|c'', ''a.b:3|c'']"
  let ?g = "\<lparr>m_namespace = ''x'', m_name = ''g'', m_body = GaugeV 5, m_timestamp = Some 1\<rparr>"
  let ?s = "(Server_init 0)\<lparr>metrics := [(''x.g'', ?g)]\<rparr>"
  have h: "list_all dotted_counter_line ?ls" by code_simp
  have c: "map_of (metrics ?s) ''a.b'' = None \<or> counter_at ?s ''a.b'' \<noteq> None" by code_simp
  have g: "map_of (metrics ?s) ''x.g'' = Some ?g \<and> class_of (m_body ?g) \<noteq> Counter" by code_simp
  have e: "(if counter_at ?s ''a.b'' = None \<and> \<not> list_ex (mentions ''a.b'') ?ls then None
            else Some (foldl (+) (case counter_at ?s ''a.b'' of Some y \<Rightarrow> y | None \<Rightarrow> 0)
                         (concat (map (contribution ''a.b'') ?ls)))) = Some 13"
    by code_simp
  from counter_sum [OF h, of 7 ?s] c have
    "counter_at (fst (process_lines 7 ?ls ?s)) ''a.b'' =
       (if counter_at ?s ''a.b'' = None \<and> \<not> list_ex (mentions ''a.b'') ?ls then None
            else Some (foldl (+) (case counter_at ?s ''a.b'' of Some y \<Rightarrow> y | None \<Rightarrow> 0)
                         (concat (map (contribution ''a.b'') ?ls))))"
    by blast
  moreover from counter_sum [OF h, of 7 ?s] g have
    "map_of (metrics (fst (process_lines 7 ?ls ?s))) ''x.g'' = Some ?g"
    by blast
  ultimately show ?thesis using e by simp
qed

end
